theory Spec2Isabelle
  imports Complex_Main "HOL-Library.AList"
begin

section \<open>The signaling server of p2pBurger (server.js)\<close>

text \<open>
  The server keeps one table, \<open>rooms\<close>, a JavaScript \<open>Map\<close> from room identifiers to
  \<open>Map\<close>s from peer identifiers to WebSocket objects. Every WebSocket object carries the
  fields \<open>peerId\<close>, \<open>currentRoomId\<close> and \<open>readyState\<close>. The handlers of the events
  \<open>connection\<close>, \<open>message\<close>, \<open>close\<close> and \<open>error\<close> read and change this state and call
  \<open>send\<close> on WebSocket objects.

  The embedding is by explicit state passing. A handler takes the server state and returns
  the new state together with the list of \<open>send\<close> calls it made, in the order it made them
  (the connection and the message; a call is recorded whether or not the transport then
  delivers it).
  A message is represented by the value that is serialised, not by its text. A template
  string that converts a field of the inbound message to a string throws a \<open>TypeError\<close> when
  the value has no string conversion; this happens in the log line at the head of the
  message handler and in the warning line of the relay case, and it is part of the
  embedding. The text that the log lines print and the HTTP part of the file are not.
\<close>

subsection \<open>JavaScript values\<close>

text \<open>
  The values that \<open>JSON.parse\<close> returns, and \<open>undefined\<close> for a property that is absent.
  An array or an object carries its identity (a natural number, its address): \<open>===\<close> and the
  key comparison of \<open>Map\<close> compare objects by identity and everything else by value, which
  for values of this type is the equality of HOL. Finite numbers are rationals, with
  \<open>-0\<close> and \<open>0\<close> identified (the server tests a number only for being zero and for identity).
  An object is the list of its own properties in their order.
\<close>

datatype jsval =
    JUndefined
  | JNull
  | JBool bool
  | JNum rat
  | JStr string
  | JArr nat "jsval list"
  | JObj nat "(string \<times> jsval) list"

text \<open>The conversion to a boolean that \<open>!v\<close> and \<open>v && ...\<close> apply.\<close>

fun truthy :: "jsval \<Rightarrow> bool" where
  "truthy JUndefined = False"
| "truthy JNull = False"
| "truthy (JBool b) = b"
| "truthy (JNum n) = (n \<noteq> 0)"
| "truthy (JStr s) = (s \<noteq> [])"
| "truthy (JArr a xs) = True"
| "truthy (JObj a kvs) = True"

text \<open>
  Whether the conversion to a string that a template string applies (\<open>`${v}`\<close>) returns.
  For an object it calls the \<open>toString\<close> found on the object: a parsed object that has an
  own property of that name holds a value that is not a function there, and the
  conversion throws a \<open>TypeError\<close>; otherwise \<open>Object.prototype.toString\<close> answers. For
  an array it joins the conversions of the elements. Every other value converts.
\<close>

fun stringable :: "jsval \<Rightarrow> bool" where
  "stringable (JObj a kvs) = (''toString'' \<notin> fst ` set kvs)"
| "stringable (JArr a xs) = (\<forall>x \<in> set xs. stringable x)"
| "stringable v = True"

text \<open>
  Reading one of the properties \<open>type\<close>, \<open>roomId\<close>, \<open>targetPeerId\<close> of a parsed value that is
  not \<open>null\<close>: an object gives the property or \<open>undefined\<close>; a number, a string, a boolean or
  an array has no property of these names.
\<close>

fun get_field :: "jsval \<Rightarrow> string \<Rightarrow> jsval" where
  "get_field (JObj a kvs) k = (case map_of kvs k of None \<Rightarrow> JUndefined | Some v \<Rightarrow> v)"
| "get_field v k = JUndefined"

text \<open>The own properties that the spread \<open>{...data}\<close> copies from a parsed object.\<close>

fun own_props :: "jsval \<Rightarrow> (string \<times> jsval) list" where
  "own_props (JObj a kvs) = kvs"
| "own_props v = []"

subsection \<open>Connections, rooms and messages\<close>

datatype ready_state = CONNECTING | OPEN | CLOSING | CLOSED

record websocket =
  peerId :: string
  currentRoomId :: jsval
  readyState :: ready_state

text \<open>
  The heap of WebSocket objects is the list \<open>socks\<close>; a WebSocket object is named by its
  index there. A \<open>Map\<close> is an association list in insertion order: \<open>set\<close> is
  \<open>AList.update\<close> (an existing key keeps its place, a new one goes to the end), \<open>delete\<close> is
  \<open>AList.delete\<close>, \<open>get\<close> and \<open>has\<close> are \<open>map_of\<close>.
\<close>

record server =
  rooms :: "(jsval \<times> (string \<times> nat) list) list"
  socks :: "websocket list"

text \<open>The \<open>message\<close> text of an \<open>error\<close> reply, by the place that builds it.\<close>

datatype err_text =
    Invalid_JSON
  | Room_ID_required
  | Requires_targetPeerId
  | Target_unavailable jsval
  | Not_in_valid_room
  | Unknown_type jsval

text \<open>
  The objects passed to \<open>JSON.stringify\<close> and \<open>send\<close>. \<open>Relayed\<close> holds the properties of
  the forwarded object in their order.
\<close>

datatype out_msg =
    Your_peer_id string
  | Error_msg err_text
  | Existing_peers jsval "string list"
  | New_peer_joined jsval string
  | Joined_room jsval string
  | Peer_left jsval string
  | Relayed "(string \<times> jsval) list"

type_synonym sent = "nat \<times> out_msg"

datatype exn = TypeError

subsection \<open>The handlers\<close>

text \<open>
  The log lines after line 46 convert values whose conversion returns: the peerId, a
  string; \<open>data.type\<close> and a truthy \<open>data.roomId\<close>, which line 46 has converted already; a
  \<open>targetPeerId\<close> that was found in a member map, a string; and \<open>ws.currentRoomId\<close>, which
  is \<open>null\<close> or a roomId that an earlier \<open>join-room\<close> stored after line 46 converted it
  (\<open>stored_room_converts\<close> below). The one that can throw is the \<open>targetPeerId\<close> of line
  123.
\<close>

text \<open>\<open>wss.on('connection', ...)\<close>, with the identifier that \<open>uuidv4()\<close> returned.\<close>

definition on_connection :: "string \<Rightarrow> server \<Rightarrow> server \<times> sent list" where
  "on_connection pid s =
     (s\<lparr>socks := socks s @ [\<lparr>peerId = pid, currentRoomId = JNull, readyState = OPEN\<rparr>]\<rparr>,
      [(length (socks s), Your_peer_id pid)])"

text \<open>The loop of \<open>leaveRoom\<close> over the remaining members.\<close>

definition peer_left_notes :: "websocket list \<Rightarrow> jsval \<Rightarrow> string \<Rightarrow> (string \<times> nat) list \<Rightarrow> sent list" where
  "peer_left_notes hp rid pid roomClients =
     map (\<lambda>(remainingPeerId, client). (client, Peer_left rid pid))
       (filter (\<lambda>(remainingPeerId, client). readyState (hp ! client) = OPEN) roomClients)"

definition leaveRoom :: "nat \<Rightarrow> server \<Rightarrow> server \<times> sent list" where
  "leaveRoom ws s =
     (let rid = currentRoomId (socks s ! ws); pid = peerId (socks s ! ws) in
      if truthy rid then
        (case map_of (rooms s) rid of
           None \<Rightarrow> (s, [])
         | Some members \<Rightarrow>
             let roomClients = AList.delete pid members in
             (\<lparr>rooms = (if roomClients = [] then AList.delete rid (rooms s)
                        else AList.update rid roomClients (rooms s)),
               socks = (socks s)[ws := (socks s ! ws)\<lparr>currentRoomId := JNull\<rparr>]\<rparr>,
              if roomClients = [] then [] else peer_left_notes (socks s) rid pid roomClients))
      else (s, []))"

text \<open>The loop of the \<open>join-room\<close> case over the members after the insertion.\<close>

definition new_peer_notes :: "websocket list \<Rightarrow> jsval \<Rightarrow> string \<Rightarrow> (string \<times> nat) list \<Rightarrow> sent list" where
  "new_peer_notes hp rid pid roomClients =
     map (\<lambda>(existingPeerId, client). (client, New_peer_joined rid pid))
       (filter (\<lambda>(existingPeerId, client). existingPeerId \<noteq> pid \<and> readyState (hp ! client) = OPEN)
          roomClients)"

text \<open>Lines 62 to 96: the part of the \<open>join-room\<close> case after the room switch.\<close>

definition enter_room :: "nat \<Rightarrow> jsval \<Rightarrow> server \<Rightarrow> server \<times> sent list" where
  "enter_room ws roomIdToJoin s =
     (let pid = peerId (socks s ! ws);
          socks1 = (socks s)[ws := (socks s ! ws)\<lparr>currentRoomId := roomIdToJoin\<rparr>];
          rooms1 = (if map_of (rooms s) roomIdToJoin = None
                    then AList.update roomIdToJoin [] (rooms s) else rooms s);
          roomClients = (case map_of rooms1 roomIdToJoin of None \<Rightarrow> [] | Some m \<Rightarrow> m);
          existing = (if roomClients \<noteq> []
                      then [(ws, Existing_peers roomIdToJoin (map fst roomClients))] else []);
          roomClients1 = AList.update pid ws roomClients
      in (\<lparr>rooms = AList.update roomIdToJoin roomClients1 rooms1, socks = socks1\<rparr>,
          existing @ new_peer_notes socks1 roomIdToJoin pid roomClients1
            @ [(ws, Joined_room roomIdToJoin pid)]))"

definition join_room :: "nat \<Rightarrow> jsval \<Rightarrow> server \<Rightarrow> server \<times> sent list" where
  "join_room ws roomIdToJoin s =
     (if \<not> truthy roomIdToJoin then (s, [(ws, Error_msg Room_ID_required)])
      else
        let cur = currentRoomId (socks s ! ws);
            (s1, left) = (if truthy cur \<and> cur \<noteq> roomIdToJoin then leaveRoom ws s else (s, []));
            (s2, joined) = enter_room ws roomIdToJoin s1
        in (s2, left @ joined))"

text \<open>
  \<open>clientsInRoom.get(targetPeerId)\<close>: the keys of a member map are strings, so only a string
  finds an entry.
\<close>

fun get_client :: "(string \<times> nat) list \<Rightarrow> jsval \<Rightarrow> nat option" where
  "get_client clientsInRoom (JStr p) = map_of clientsInRoom p"
| "get_client clientsInRoom v = None"

text \<open>
  Lines 123 and 124, the target being absent from the room or not open: the warning line
  converts \<open>targetPeerId\<close> to a string before the \<open>error\<close> reply is sent.
\<close>

definition target_unavailable :: "nat \<Rightarrow> jsval \<Rightarrow> server \<Rightarrow> exn + server \<times> sent list" where
  "target_unavailable ws targetPeerId s =
     (if stringable targetPeerId
      then Inr (s, [(ws, Error_msg (Target_unavailable targetPeerId))])
      else Inl TypeError)"

text \<open>The cases \<open>offer\<close>, \<open>answer\<close> and \<open>ice-candidate\<close>.\<close>

definition signal :: "nat \<Rightarrow> jsval \<Rightarrow> server \<Rightarrow> exn + server \<times> sent list" where
  "signal ws data s =
     (let targetPeerId = get_field data ''targetPeerId'';
          cur = currentRoomId (socks s ! ws) in
      if \<not> truthy targetPeerId then Inr (s, [(ws, Error_msg Requires_targetPeerId)])
      else if truthy cur \<and> map_of (rooms s) cur \<noteq> None then
        (case map_of (rooms s) cur of
           None \<Rightarrow> Inr (s, [(ws, Error_msg Not_in_valid_room)])
         | Some clientsInRoom \<Rightarrow>
             (case get_client clientsInRoom targetPeerId of
                None \<Rightarrow> target_unavailable ws targetPeerId s
              | Some targetClient \<Rightarrow>
                  if readyState (socks s ! targetClient) = OPEN
                  then Inr (s, [(targetClient,
                         Relayed (AList.update ''senderPeerId'' (JStr (peerId (socks s ! ws)))
                                    (own_props data)))])
                  else target_unavailable ws targetPeerId s))
      else Inr (s, [(ws, Error_msg Not_in_valid_room)]))"

text \<open>
  \<open>ws.on('message', ...)\<close>, with the result of \<open>JSON.parse\<close>: \<open>None\<close> when it threw. The log
  line 46 comes before the \<open>switch\<close>. It reads \<open>data.type\<close>, which throws a \<open>TypeError\<close> when
  the parsed value is \<open>null\<close>, and it converts \<open>data.type\<close> and then \<open>data.roomId || 'N/A'\<close>
  to strings, which throws when \<open>data.type\<close>, or a truthy \<open>data.roomId\<close>, has no string
  conversion. Nothing catches these exceptions.
\<close>

definition on_message :: "nat \<Rightarrow> jsval option \<Rightarrow> server \<Rightarrow> exn + server \<times> sent list" where
  "on_message ws parsed s =
     (case parsed of
        None \<Rightarrow> Inr (s, [(ws, Error_msg Invalid_JSON)])
      | Some data \<Rightarrow>
          if data = JNull \<or> data = JUndefined then Inl TypeError
          else
            let ty = get_field data ''type''; roomId = get_field data ''roomId'' in
            if \<not> stringable ty then Inl TypeError
            else if truthy roomId \<and> \<not> stringable roomId then Inl TypeError
            else if ty = JStr ''join-room'' then Inr (join_room ws roomId s)
            else if ty = JStr ''offer'' \<or> ty = JStr ''answer'' \<or> ty = JStr ''ice-candidate''
            then signal ws data s
            else Inr (s, [(ws, Error_msg (Unknown_type ty))]))"

text \<open>\<open>ws.on('close', ...)\<close> and \<open>ws.on('error', ...)\<close> both call \<open>leaveRoom(ws)\<close>.\<close>

definition on_close :: "nat \<Rightarrow> server \<Rightarrow> server \<times> sent list" where
  "on_close ws s = leaveRoom ws s"

definition on_error :: "nat \<Rightarrow> server \<Rightarrow> server \<times> sent list" where
  "on_error ws s = leaveRoom ws s"

subsection \<open>Event sequences\<close>

text \<open>
  What the environment does: a connection arrives (with the fresh identifier), a message
  arrives on a connection, a connection closes or fails, the transport changes the
  \<open>readyState\<close> of a connection. An event is admissible when its connection exists and,
  for a new connection, when the identifier is not in use (what \<open>uuidv4\<close> provides).
\<close>

datatype event =
    Connection string
  | Message nat "jsval option"
  | Close nat
  | Failure nat
  | Transport nat ready_state

fun admissible :: "event \<Rightarrow> server \<Rightarrow> bool" where
  "admissible (Connection pid) s = (pid \<notin> set (map peerId (socks s)))"
| "admissible (Message ws parsed) s = (ws < length (socks s))"
| "admissible (Close ws) s = (ws < length (socks s))"
| "admissible (Failure ws) s = (ws < length (socks s))"
| "admissible (Transport ws r) s = (ws < length (socks s))"

fun dispatch :: "event \<Rightarrow> server \<Rightarrow> exn + server \<times> sent list" where
  "dispatch (Connection pid) s = Inr (on_connection pid s)"
| "dispatch (Message ws parsed) s = on_message ws parsed s"
| "dispatch (Close ws) s = Inr (on_close ws s)"
| "dispatch (Failure ws) s = Inr (on_error ws s)"
| "dispatch (Transport ws r) s = Inr (s\<lparr>socks := (socks s)[ws := (socks s ! ws)\<lparr>readyState := r\<rparr>]\<rparr>, [])"

definition boot :: server where
  "boot = \<lparr>rooms = [], socks = []\<rparr>"

text \<open>
  The state after a sequence of events from a given state: \<open>None\<close> when an event is not
  admissible or a handler throws (the exception is uncaught and ends the process).
\<close>

fun run :: "server \<Rightarrow> event list \<Rightarrow> server option" where
  "run s [] = Some s"
| "run s (e # es) =
     (if admissible e s
      then (case dispatch e s of Inl x \<Rightarrow> None | Inr (s1, out) \<Rightarrow> run s1 es)
      else None)"

subsection \<open>Scenario data\<close>

text \<open>
  The messages and states of the scenarios used below: the peers \<open>X\<close>, \<open>Y\<close> and \<open>Z\<close> are
  the connections 0, 1 and 2. \<open>unprintable\<close> is what \<open>JSON.parse\<close> returns for the text
  \<open>{"toString":1}\<close>, an object with no string conversion.
\<close>

definition join_r1 :: jsval where
  "join_r1 = JObj 0 [(''type'', JStr ''join-room''), (''roomId'', JStr ''r1'')]"



definition forged_offer :: jsval where
  "forged_offer = JObj 0 [(''type'', JStr ''offer''), (''senderPeerId'', JStr ''Y''),
                          (''targetPeerId'', JStr ''Y''), (''sdp'', JStr ''v=0'')]"

definition unprintable :: jsval where
  "unprintable = JObj 1 [(''toString'', JNum 1)]"

definition odd_type :: jsval where
  "odd_type = JObj 0 [(''type'', unprintable)]"

definition join_odd_room :: jsval where
  "join_odd_room = JObj 0 [(''type'', JStr ''join-room''), (''roomId'', unprintable)]"

definition offer_odd_target :: jsval where
  "offer_odd_target = JObj 0 [(''type'', JStr ''offer''), (''targetPeerId'', unprintable)]"

definition offer_odd_roomId :: jsval where
  "offer_odd_roomId = JObj 0 [(''type'', JStr ''offer''), (''targetPeerId'', JStr ''Y''),
                              (''roomId'', unprintable)]"

definition offer_no_target_odd_roomId :: jsval where
  "offer_no_target_odd_roomId = JObj 0 [(''type'', JStr ''offer''), (''roomId'', unprintable)]"

definition x_connected :: server where
  "x_connected = \<lparr>rooms = [],
     socks = [\<lparr>peerId = ''X'', currentRoomId = JNull, readyState = OPEN\<rparr>]\<rparr>"

definition x_in_r1 :: server where
  "x_in_r1 = \<lparr>rooms = [(JStr ''r1'', [(''X'', 0)])],
     socks = [\<lparr>peerId = ''X'', currentRoomId = JStr ''r1'', readyState = OPEN\<rparr>]\<rparr>"

definition xy_in_r1 :: server where
  "xy_in_r1 = \<lparr>rooms = [(JStr ''r1'', [(''X'', 0), (''Y'', 1)])],
     socks = [\<lparr>peerId = ''X'', currentRoomId = JStr ''r1'', readyState = OPEN\<rparr>,
              \<lparr>peerId = ''Y'', currentRoomId = JStr ''r1'', readyState = OPEN\<rparr>]\<rparr>"

definition xyz_in_r1 :: server where
  "xyz_in_r1 = \<lparr>rooms = [(JStr ''r1'', [(''X'', 0), (''Y'', 1), (''Z'', 2)])],
     socks = [\<lparr>peerId = ''X'', currentRoomId = JStr ''r1'', readyState = OPEN\<rparr>,
              \<lparr>peerId = ''Y'', currentRoomId = JStr ''r1'', readyState = OPEN\<rparr>,
              \<lparr>peerId = ''Z'', currentRoomId = JStr ''r1'', readyState = CLOSING\<rparr>]\<rparr>"

definition xz_in_r1 :: server where
  "xz_in_r1 = \<lparr>rooms = [(JStr ''r1'', [(''X'', 0), (''Z'', 2)])],
     socks = [\<lparr>peerId = ''X'', currentRoomId = JStr ''r1'', readyState = OPEN\<rparr>,
              \<lparr>peerId = ''Y'', currentRoomId = JNull, readyState = OPEN\<rparr>,
              \<lparr>peerId = ''Z'', currentRoomId = JStr ''r1'', readyState = CLOSING\<rparr>]\<rparr>"


subsection \<open>Consistent states\<close>

text \<open>
  The relation between the room table and the fields of the WebSocket objects that every
  handler keeps: room identifiers and, within a room, peer identifiers are keys of a
  \<open>Map\<close>; no two connections have the same peerId; a room in the table has a truthy
  identifier that converts to a string (it has passed line 46) and at least one member,
  and each member entry names a connection with that
  peerId whose \<open>currentRoomId\<close> is this room; a connection whose \<open>currentRoomId\<close> is not
  \<open>null\<close> is a member of the room it names.
\<close>

definition consistent :: "server \<Rightarrow> bool" where
  "consistent s \<longleftrightarrow>
     distinct (map fst (rooms s)) \<and>
     distinct (map peerId (socks s)) \<and>
     (\<forall>(rid, members) \<in> set (rooms s).
        truthy rid \<and> stringable rid \<and> members \<noteq> [] \<and> distinct (map fst members) \<and>
        (\<forall>(p, c) \<in> set members.
           c < length (socks s) \<and> peerId (socks s ! c) = p \<and> currentRoomId (socks s ! c) = rid)) \<and>
     (\<forall>ws < length (socks s).
        currentRoomId (socks s ! ws) = JNull \<or>
        (case map_of (rooms s) (currentRoomId (socks s ! ws)) of
           None \<Rightarrow> False
         | Some members \<Rightarrow> map_of members (peerId (socks s ! ws)) = Some ws))"

text \<open>The same conditions read through \<open>map_of\<close>, as the proofs use them.\<close>

definition rooms_ok :: "server \<Rightarrow> bool" where
  "rooms_ok s \<longleftrightarrow>
     (\<forall>rid ms. map_of (rooms s) rid = Some ms \<longrightarrow>
        truthy rid \<and> stringable rid \<and> ms \<noteq> [] \<and> distinct (map fst ms) \<and>
        (\<forall>p c. map_of ms p = Some c \<longrightarrow>
           c < length (socks s) \<and> peerId (socks s ! c) = p \<and> currentRoomId (socks s ! c) = rid))"

definition socks_ok :: "server \<Rightarrow> bool" where
  "socks_ok s \<longleftrightarrow>
     (\<forall>ws < length (socks s). currentRoomId (socks s ! ws) \<noteq> JNull \<longrightarrow>
        (\<exists>ms. map_of (rooms s) (currentRoomId (socks s ! ws)) = Some ms \<and>
              map_of ms (peerId (socks s ! ws)) = Some ws))"

section \<open>Properties\<close>

subsection \<open>The scenario states are reached\<close>

lemma x_connected_reached: "run boot [Connection ''X''] = Some x_connected"
  by (simp add: boot_def on_connection_def x_connected_def)

lemma x_in_r1_reached:
  "run boot [Connection ''X'', Message 0 (Some join_r1)] = Some x_in_r1"
  by (simp add: boot_def on_connection_def on_message_def join_room_def enter_room_def
      new_peer_notes_def join_r1_def x_in_r1_def Let_def)


lemma xyz_in_r1_reached:
  "run boot [Connection ''X'', Message 0 (Some join_r1), Connection ''Y'', Message 1 (Some join_r1),
             Connection ''Z'', Message 2 (Some join_r1), Transport 2 CLOSING]
     = Some xyz_in_r1"
  by (simp add: boot_def on_connection_def on_message_def join_room_def enter_room_def
      new_peer_notes_def join_r1_def xyz_in_r1_def Let_def)

subsection \<open>Facts about the handlers\<close>

lemma on_message_signal:
  "get_field data ''type'' \<in> {JStr ''offer'', JStr ''answer'', JStr ''ice-candidate''} \<Longrightarrow>
   on_message ws (Some data) s =
     (if truthy (get_field data ''roomId'') \<and> \<not> stringable (get_field data ''roomId'')
      then Inl TypeError else signal ws data s)"
  by (auto simp: on_message_def)

lemma get_client_Some:
  "get_client members t = Some c \<longleftrightarrow> (\<exists>p. t = JStr p \<and> map_of members p = Some c)"
  by (cases t) auto

lemma signal_delivers:
  assumes "truthy (get_field data ''targetPeerId'')" "truthy (currentRoomId (socks s ! ws))"
    "map_of (rooms s) (currentRoomId (socks s ! ws)) = Some members"
    "get_field data ''targetPeerId'' = JStr p" "map_of members p = Some c"
    "readyState (socks s ! c) = OPEN"
  shows "signal ws data s =
     Inr (s, [(c, Relayed (AList.update ''senderPeerId'' (JStr (peerId (socks s ! ws))) (own_props data)))])"
  using assms by (simp add: signal_def Let_def)

lemma signal_rejects:
  assumes "\<not> (truthy (get_field data ''targetPeerId'') \<and> truthy (currentRoomId (socks s ! ws)) \<and>
        (\<exists>members p c. map_of (rooms s) (currentRoomId (socks s ! ws)) = Some members \<and>
           get_field data ''targetPeerId'' = JStr p \<and> map_of members p = Some c \<and>
           readyState (socks s ! c) = OPEN))"
    and "stringable (get_field data ''targetPeerId'')"
  shows "\<exists>e. signal ws data s = Inr (s, [(ws, Error_msg e)])"
  using assms
  by (auto simp: signal_def target_unavailable_def Let_def get_client_Some split: option.splits)

lemma leaveRoom_sends_peer_left:
  "(c, m) \<in> set (snd (leaveRoom ws s)) \<Longrightarrow> \<exists>rid pid. m = Peer_left rid pid"
  by (auto simp: leaveRoom_def Let_def peer_left_notes_def split: option.splits if_splits)

lemma enter_room_sends_no_relay:
  "(c, Relayed m) \<notin> set (snd (enter_room ws rid s))"
  by (auto simp: enter_room_def Let_def new_peer_notes_def)

lemma join_room_sends_no_relay:
  "(c, Relayed m) \<notin> set (snd (join_room ws rid s))"
proof
  assume a: "(c, Relayed m) \<in> set (snd (join_room ws rid s))"
  obtain s1 left where l: "(if truthy (currentRoomId (socks s ! ws)) \<and> currentRoomId (socks s ! ws) \<noteq> rid
      then leaveRoom ws s else (s, [])) = (s1, left)" by fastforce
  have "(c, Relayed m) \<notin> set left"
    using l leaveRoom_sends_peer_left[of c "Relayed m" ws s] by (auto split: if_splits)
  moreover have "(c, Relayed m) \<notin> set (snd (enter_room ws rid s1))"
    by (rule enter_room_sends_no_relay)
  ultimately show False using a l
    by (auto simp: join_room_def Let_def split: prod.splits if_splits)
qed

lemma relayed_only_by_signal:
  assumes "on_message ws (Some data) s = Inr (s', out)" "(c, Relayed m) \<in> set out"
  shows "get_field data ''type'' \<in> {JStr ''offer'', JStr ''answer'', JStr ''ice-candidate''}
         \<and> signal ws data s = Inr (s', out)"
  using assms join_room_sends_no_relay[of c m ws "get_field data ''roomId''" s]
  by (auto simp: on_message_def Let_def split: if_splits)

lemma signal_relayed:
  assumes "signal ws data s = Inr (s', out)" "(c, Relayed m) \<in> set out"
  shows "s' = s \<and> out = [(c, Relayed m)] \<and>
         m = AList.update ''senderPeerId'' (JStr (peerId (socks s ! ws))) (own_props data)"
  using assms
  by (auto simp: signal_def target_unavailable_def Let_def split: option.splits if_splits)




lemma update_only_value:
  "distinct (map fst al) \<Longrightarrow> (k, v) \<in> set (AList.update k v' al) \<Longrightarrow> v = v'"
  by (induction al) (auto simp: rev_image_eqI split: if_splits)

subsection \<open>Joining an empty room\<close>

text \<open>
  C1, as the specification states it: a peer that joins the empty room \<open>r1\<close> is sent
  \<open>existing-peers\<close> with an empty list and then \<open>joined-room\<close>. The server does not do
  this: \<open>existing-peers\<close> is sent only when the room already has a member
  (\<open>if (roomClients.size > 0)\<close>). When \<open>X\<close> has connected and sends \<open>join-room\<close> for \<open>r1\<close>, the
  only message sent is \<open>joined-room\<close>.
\<close>

theorem first_join_sends_no_existing_peers:
  "on_message 0 (Some join_r1) x_connected = Inr (x_in_r1, [(0, Joined_room (JStr ''r1'') ''X'')])"
  by (simp add: on_message_def join_room_def enter_room_def new_peer_notes_def join_r1_def
      x_connected_def x_in_r1_def Let_def)

text \<open>
  C1, amended: when a peer that is in no room sends \<open>join-room\<close> with roomId \<open>r1\<close> while room
  \<open>r1\<close> has no members, the server sends it exactly one message, \<open>joined-room\<close> with roomId
  \<open>r1\<close> and its peerId, and no \<open>existing-peers\<close> message; afterwards the peer is the only
  member of \<open>r1\<close>.
\<close>

theorem join_empty_room:
  assumes "get_field data ''type'' = JStr ''join-room''"
    and "get_field data ''roomId'' = JStr ''r1''"
    and "currentRoomId (socks s ! ws) = JNull"
    and "map_of (rooms s) (JStr ''r1'') = None \<or> map_of (rooms s) (JStr ''r1'') = Some []"
  shows "\<exists>s'. on_message ws (Some data) s
            = Inr (s', [(ws, Joined_room (JStr ''r1'') (peerId (socks s ! ws)))])
          \<and> map_of (rooms s') (JStr ''r1'') = Some [(peerId (socks s ! ws), ws)]"
proof -
  from assms(1) have nn: "data \<noteq> JNull" "data \<noteq> JUndefined" by auto
  from assms(4) show ?thesis
  proof
    assume "map_of (rooms s) (JStr ''r1'') = None"
    with assms(1,2,3) nn show ?thesis
      by (simp add: on_message_def join_room_def enter_room_def new_peer_notes_def Let_def
          update_conv')
  next
    assume "map_of (rooms s) (JStr ''r1'') = Some []"
    with assms(1,2,3) nn show ?thesis
      by (simp add: on_message_def join_room_def enter_room_def new_peer_notes_def Let_def
          update_conv')
  qed
qed

theorem join_empty_room_witness:
  "get_field join_r1 ''type'' = JStr ''join-room'' \<and>
   get_field join_r1 ''roomId'' = JStr ''r1'' \<and>
   currentRoomId (socks x_connected ! 0) = JNull \<and>
   map_of (rooms x_connected) (JStr ''r1'') = None \<and>
   (\<exists>s'. on_message 0 (Some join_r1) x_connected = Inr (s', [(0, Joined_room (JStr ''r1'') ''X'')])
      \<and> map_of (rooms s') (JStr ''r1'') = Some [(''X'', 0)])"
  using join_empty_room[of join_r1 x_connected 0]
  by (simp add: join_r1_def x_connected_def)

subsection \<open>Joining the room one is already in\<close>

text \<open>
  C2: the list of existing peers sent to a joiner never contains the joiner itself, also
  when the peer sends \<open>join-room\<close> for the room it is already a member of. The server
  leaves the old room only when it differs from the requested one, so a member that asks
  for its own room again is still in the member map when the snapshot is taken: \<open>X\<close>, alone
  in \<open>r1\<close>, sends \<open>join-room\<close> for \<open>r1\<close> and is sent \<open>existing-peers\<close> with the list \<open>[X]\<close>.
  With \<open>Y\<close> in the room as well, \<open>X\<close> is sent the list \<open>[X, Y]\<close> and \<open>Y\<close> is told once more
  that \<open>X\<close> joined.
\<close>

theorem rejoin_lists_the_joiner:
  "run boot [Connection ''X'', Message 0 (Some join_r1)] = Some x_in_r1 \<and>
   on_message 0 (Some join_r1) x_in_r1
     = Inr (x_in_r1, [(0, Existing_peers (JStr ''r1'') [''X'']),
                      (0, Joined_room (JStr ''r1'') ''X'')]) \<and>
   on_message 0 (Some join_r1) xy_in_r1
     = Inr (xy_in_r1, [(0, Existing_peers (JStr ''r1'') [''X'', ''Y'']),
                       (1, New_peer_joined (JStr ''r1'') ''X''),
                       (0, Joined_room (JStr ''r1'') ''X'')])"
  by (simp add: boot_def on_connection_def on_message_def join_room_def enter_room_def
      new_peer_notes_def join_r1_def x_in_r1_def xy_in_r1_def Let_def)

subsection \<open>Relaying\<close>

text \<open>
  What the relay case does with a message whose fields convert to strings: the message is
  delivered if and only if its targetPeerId is not falsy, the sender has a current room
  that is a key of the room table, the target is a member of that room, and the target's
  connection is open. It then goes to the connection stored for the target, as the
  inbound object with \<open>senderPeerId\<close> set, and nothing else is sent. Otherwise the only
  message sent is an \<open>error\<close> reply to the sender. The state is unchanged in both cases.
\<close>

lemma relay_of_convertible_message:
  assumes ty: "get_field data ''type'' \<in> {JStr ''offer'', JStr ''answer'', JStr ''ice-candidate''}"
    and cr: "stringable (get_field data ''roomId'')"
    and ct: "stringable (get_field data ''targetPeerId'')"
  shows "\<exists>out. on_message ws (Some data) s = Inr (s, out) \<and>
     ((\<exists>c m. (c, Relayed m) \<in> set out) \<longleftrightarrow>
        truthy (get_field data ''targetPeerId'') \<and> truthy (currentRoomId (socks s ! ws)) \<and>
        (\<exists>members p c. map_of (rooms s) (currentRoomId (socks s ! ws)) = Some members \<and>
           get_field data ''targetPeerId'' = JStr p \<and> map_of members p = Some c \<and>
           readyState (socks s ! c) = OPEN)) \<and>
     (\<forall>c m. (c, Relayed m) \<in> set out \<longrightarrow>
        (\<exists>members p. map_of (rooms s) (currentRoomId (socks s ! ws)) = Some members \<and>
           get_field data ''targetPeerId'' = JStr p \<and> map_of members p = Some c) \<and>
        m = AList.update ''senderPeerId'' (JStr (peerId (socks s ! ws))) (own_props data) \<and>
        out = [(c, Relayed m)]) \<and>
     ((\<forall>c m. (c, Relayed m) \<notin> set out) \<longrightarrow> (\<exists>e. out = [(ws, Error_msg e)]))"
proof (cases "truthy (get_field data ''targetPeerId'') \<and> truthy (currentRoomId (socks s ! ws)) \<and>
        (\<exists>members p c. map_of (rooms s) (currentRoomId (socks s ! ws)) = Some members \<and>
           get_field data ''targetPeerId'' = JStr p \<and> map_of members p = Some c \<and>
           readyState (socks s ! c) = OPEN)")
  case True
  then obtain members p c where m: "map_of (rooms s) (currentRoomId (socks s ! ws)) = Some members"
    "get_field data ''targetPeerId'' = JStr p" "map_of members p = Some c"
    "readyState (socks s ! c) = OPEN" by blast
  from True m have "signal ws data s =
     Inr (s, [(c, Relayed (AList.update ''senderPeerId'' (JStr (peerId (socks s ! ws))) (own_props data)))])"
    by (intro signal_delivers) auto
  with on_message_signal[OF ty, of ws s] cr True m show ?thesis by auto
next
  case False
  from signal_rejects[OF False ct] obtain e where "signal ws data s = Inr (s, [(ws, Error_msg e)])"
    by blast
  with on_message_signal[OF ty, of ws s] cr False show ?thesis by auto
qed

text \<open>
  C5: a relay message is delivered if and only if it carries a targetPeerId, the sender
  has a room that is in the room table, the target is a member of that room and the
  target's connection is open, and in every other case the sender receives an \<open>error\<close>
  reply. The server breaks both halves on messages it can receive. \<open>X\<close> and \<open>Y\<close> are in
  \<open>r1\<close>, both open. \<open>X\<close> sends an \<open>offer\<close> whose targetPeerId is the object \<open>{"toString":1}\<close>: it
  is truthy and no member, and the warning line 123 throws while converting it, before
  the \<open>error\<close> reply of line 124 is sent. \<open>X\<close> sends an \<open>offer\<close> to \<open>Y\<close>, for which the four
  conditions hold, that also has a roomId \<open>{"toString":1}\<close>: the log line 46 throws and
  nothing is delivered. In both cases nothing is sent and the exception is uncaught.
\<close>

theorem relay_throws_on_unconvertible_field:
  "run boot [Connection ''X'', Message 0 (Some join_r1), Connection ''Y'', Message 1 (Some join_r1)]
     = Some xy_in_r1 \<and>
   get_field offer_odd_target ''type'' = JStr ''offer'' \<and>
   truthy (get_field offer_odd_target ''targetPeerId'') \<and>
   on_message 0 (Some offer_odd_target) xy_in_r1 = Inl TypeError \<and>
   get_field offer_odd_roomId ''type'' = JStr ''offer'' \<and>
   get_field offer_odd_roomId ''targetPeerId'' = JStr ''Y'' \<and>
   truthy (currentRoomId (socks xy_in_r1 ! 0)) \<and>
   map_of (rooms xy_in_r1) (currentRoomId (socks xy_in_r1 ! 0)) = Some [(''X'', 0), (''Y'', 1)] \<and>
   map_of [(''X'', 0::nat), (''Y'', 1)] ''Y'' = Some 1 \<and>
   readyState (socks xy_in_r1 ! 1) = OPEN \<and>
   on_message 0 (Some offer_odd_roomId) xy_in_r1 = Inl TypeError"
  by (simp add: boot_def on_connection_def on_message_def join_room_def enter_room_def
      new_peer_notes_def signal_def target_unavailable_def join_r1_def xy_in_r1_def
      offer_odd_target_def offer_odd_roomId_def unprintable_def Let_def)



text \<open>
  C9: the \<open>senderPeerId\<close> that the receiver of a relay message sees is the peerId of the
  connection that sent the message, whatever the inbound message contains: the forwarded
  object has exactly one value under \<open>senderPeerId\<close>, the sender's peerId, so a value
  supplied by the client does not survive. (The property names of a JavaScript object are
  distinct.)
\<close>

theorem sender_attribution:
  assumes "on_message ws (Some data) s = Inr (s', out)" and "(c, Relayed m) \<in> set out"
    and "distinct (map fst (own_props data))"
  shows "get_field (JObj b m) ''senderPeerId'' = JStr (peerId (socks s ! ws)) \<and>
         (\<forall>v. (''senderPeerId'', v) \<in> set m \<longrightarrow> v = JStr (peerId (socks s ! ws)))"
proof -
  from relayed_only_by_signal[OF assms(1,2)]
  have sg: "signal ws data s = Inr (s', out)" by simp
  from signal_relayed[OF sg assms(2)]
  have m: "m = AList.update ''senderPeerId'' (JStr (peerId (socks s ! ws))) (own_props data)"
    by simp
  have "map_of m ''senderPeerId'' = Some (JStr (peerId (socks s ! ws)))"
    unfolding m by (simp add: update_conv')
  moreover have "\<forall>v. (''senderPeerId'', v) \<in> set m \<longrightarrow> v = JStr (peerId (socks s ! ws))"
    unfolding m using update_only_value[OF assms(3)] by blast
  ultimately show ?thesis by simp
qed

theorem sender_attribution_witness:
  "get_field forged_offer ''senderPeerId'' = JStr ''Y'' \<and>
   on_message 0 (Some forged_offer) xy_in_r1
     = Inr (xy_in_r1, [(1, Relayed [(''type'', JStr ''offer''), (''senderPeerId'', JStr ''X''),
                                    (''targetPeerId'', JStr ''Y''), (''sdp'', JStr ''v=0'')])]) \<and>
   distinct (map fst (own_props forged_offer)) \<and>
   get_field (JObj 0 [(''type'', JStr ''offer''), (''senderPeerId'', JStr ''X''),
                      (''targetPeerId'', JStr ''Y''), (''sdp'', JStr ''v=0'')]) ''senderPeerId''
     = JStr (peerId (socks xy_in_r1 ! 0))"
proof -
  have h: "on_message 0 (Some forged_offer) xy_in_r1
     = Inr (xy_in_r1, [(1, Relayed [(''type'', JStr ''offer''), (''senderPeerId'', JStr ''X''),
                                    (''targetPeerId'', JStr ''Y''), (''sdp'', JStr ''v=0'')])])"
    by (simp add: on_message_def signal_def forged_offer_def xy_in_r1_def Let_def)
  have i: "(1, Relayed [(''type'', JStr ''offer''), (''senderPeerId'', JStr ''X''),
                        (''targetPeerId'', JStr ''Y''), (''sdp'', JStr ''v=0'')])
     \<in> set [(1::nat, Relayed [(''type'', JStr ''offer''), (''senderPeerId'', JStr ''X''),
                        (''targetPeerId'', JStr ''Y''), (''sdp'', JStr ''v=0'')])]"
    by simp
  have d: "distinct (map fst (own_props forged_offer))"
    by (simp add: forged_offer_def)
  have f: "get_field forged_offer ''senderPeerId'' = JStr ''Y''"
    by (simp add: forged_offer_def)
  from sender_attribution[OF h i d, of 0] h d f show ?thesis by blast
qed

subsection \<open>Rejected messages\<close>

text \<open>
  The messages that are answered with an \<open>error\<close> reply and nothing else: a message that
  cannot be parsed, and, when the log line 46 returns (the parsed value is not \<open>null\<close>, its
  \<open>type\<close> converts to a string and so does its roomId), a message whose \<open>type\<close> is none of
  \<open>join-room\<close>, \<open>offer\<close>, \<open>answer\<close>, \<open>ice-candidate\<close>, a \<open>join-room\<close> whose roomId is missing or
  falsy, and a relay message whose targetPeerId is missing or falsy. Each gets exactly one
  message, an \<open>error\<close> reply to the sender, and leaves the whole state as it was, the rooms,
  every peer's room and every connection's \<open>readyState\<close>.
\<close>

lemma error_reply_of_convertible_message:
  assumes "parsed = None
     \<or> (\<exists>data. parsed = Some data \<and> data \<noteq> JNull \<and> data \<noteq> JUndefined
          \<and> stringable (get_field data ''type'') \<and> stringable (get_field data ''roomId'')
          \<and> get_field data ''type''
              \<notin> {JStr ''join-room'', JStr ''offer'', JStr ''answer'', JStr ''ice-candidate''})
     \<or> (\<exists>data. parsed = Some data \<and> get_field data ''type'' = JStr ''join-room''
          \<and> \<not> truthy (get_field data ''roomId''))
     \<or> (\<exists>data. parsed = Some data \<and> stringable (get_field data ''roomId'')
          \<and> get_field data ''type'' \<in> {JStr ''offer'', JStr ''answer'', JStr ''ice-candidate''}
          \<and> \<not> truthy (get_field data ''targetPeerId''))"
  shows "\<exists>e. on_message ws parsed s = Inr (s, [(ws, Error_msg e)])"
  using assms
  by (auto simp: on_message_def join_room_def signal_def Let_def)

text \<open>
  C8: every message that cannot be parsed, has an unrecognized type, or lacks the roomId
  or targetPeerId it needs gets an \<open>error\<close> reply to the sender, with the state unchanged
  and the connection left open. The server does not do this for three messages it can
  receive, sent here by \<open>X\<close> in \<open>r1\<close>. The text \<open>{"type":{"toString":1}}\<close> parses, and its
  type is none of the four: the log line 46 throws while converting the type. The text
  \<open>null\<close> parses, and reading \<open>data.type\<close> in line 46 throws. The text
  \<open>{"type":"offer","roomId":{"toString":1}}\<close> is a relay message without targetPeerId: line
  46 throws while converting the roomId. In each case no reply is sent, and the exception,
  which nothing catches, ends the process and with it every connection.
\<close>

theorem malformed_message_throws:
  "run boot [Connection ''X'', Message 0 (Some join_r1)] = Some x_in_r1 \<and>
   get_field odd_type ''type'' = unprintable \<and>
   unprintable \<notin> {JStr ''join-room'', JStr ''offer'', JStr ''answer'', JStr ''ice-candidate''} \<and>
   on_message 0 (Some odd_type) x_in_r1 = Inl TypeError \<and>
   on_message 0 (Some JNull) x_in_r1 = Inl TypeError \<and>
   get_field offer_no_target_odd_roomId ''type'' = JStr ''offer'' \<and>
   get_field offer_no_target_odd_roomId ''targetPeerId'' = JUndefined \<and>
   on_message 0 (Some offer_no_target_odd_roomId) x_in_r1 = Inl TypeError"
  by (simp add: boot_def on_connection_def on_message_def join_room_def enter_room_def
      new_peer_notes_def join_r1_def x_in_r1_def odd_type_def offer_no_target_odd_roomId_def
      unprintable_def Let_def)

subsection \<open>Leaving twice\<close>

text \<open>
  C10: \<open>leaveRoom\<close> is idempotent on a connection. When the peer's room is in the table the
  first call sets its \<open>currentRoomId\<close> to \<open>null\<close>; a second call for the same connection
  changes nothing and sends nothing, so an \<open>error\<close> event followed by a \<open>close\<close> event
  cleans up once.
\<close>

theorem leaveRoom_idempotent:
  assumes "ws < length (socks s)"
  shows "leaveRoom ws (fst (leaveRoom ws s)) = (fst (leaveRoom ws s), []) \<and>
         (truthy (currentRoomId (socks s ! ws)) \<and>
          map_of (rooms s) (currentRoomId (socks s ! ws)) \<noteq> None
            \<longrightarrow> currentRoomId (socks (fst (leaveRoom ws s)) ! ws) = JNull) \<and>
         on_close ws (fst (on_error ws s)) = (fst (on_error ws s), [])"
  using assms
  by (auto simp: on_close_def on_error_def leaveRoom_def Let_def split: option.splits)

theorem leaveRoom_idempotent_witness:
  "(1::nat) < length (socks xy_in_r1) \<and>
   leaveRoom 1 xy_in_r1 = (fst (leaveRoom 1 xy_in_r1), [(0, Peer_left (JStr ''r1'') ''Y'')]) \<and>
   leaveRoom 1 (fst (leaveRoom 1 xy_in_r1)) = (fst (leaveRoom 1 xy_in_r1), [])"
proof -
  have l: "(1::nat) < length (socks xy_in_r1)" by (simp add: xy_in_r1_def)
  have "leaveRoom 1 xy_in_r1 = (fst (leaveRoom 1 xy_in_r1), [(0, Peer_left (JStr ''r1'') ''Y'')])"
    by (simp add: leaveRoom_def peer_left_notes_def xy_in_r1_def Let_def)
  with leaveRoom_idempotent[OF l] l show ?thesis by blast
qed

subsection \<open>Every reachable state is consistent\<close>

lemma consistent_iff:
  "consistent s \<longleftrightarrow>
     distinct (map fst (rooms s)) \<and> distinct (map peerId (socks s)) \<and> rooms_ok s \<and> socks_ok s"
proof -
  have so: "socks_ok s \<longleftrightarrow> (\<forall>ws < length (socks s).
        currentRoomId (socks s ! ws) = JNull \<or>
        (case map_of (rooms s) (currentRoomId (socks s ! ws)) of
           None \<Rightarrow> False
         | Some members \<Rightarrow> map_of members (peerId (socks s ! ws)) = Some ws))"
    unfolding socks_ok_def by (auto split: option.splits)
  have ro: "rooms_ok s \<longleftrightarrow> (\<forall>(rid, members) \<in> set (rooms s).
        truthy rid \<and> stringable rid \<and> members \<noteq> [] \<and> distinct (map fst members) \<and>
        (\<forall>(p, c) \<in> set members.
           c < length (socks s) \<and> peerId (socks s ! c) = p \<and> currentRoomId (socks s ! c) = rid))"
    if d: "distinct (map fst (rooms s))"
  proof
    assume r: "rooms_ok s"
    show "\<forall>(rid, members) \<in> set (rooms s).
        truthy rid \<and> stringable rid \<and> members \<noteq> [] \<and> distinct (map fst members) \<and>
        (\<forall>(p, c) \<in> set members.
           c < length (socks s) \<and> peerId (socks s ! c) = p \<and> currentRoomId (socks s ! c) = rid)"
    proof (clarify)
      fix rid ms assume "(rid, ms) \<in> set (rooms s)"
      with d have m: "map_of (rooms s) rid = Some ms" by simp
      with r have a: "truthy rid" "ms \<noteq> []" "distinct (map fst ms)" "stringable rid"
        and b: "\<forall>p c. map_of ms p = Some c \<longrightarrow>
           c < length (socks s) \<and> peerId (socks s ! c) = p \<and> currentRoomId (socks s ! c) = rid"
        unfolding rooms_ok_def by blast+
      from a(3) b have "\<forall>(p, c) \<in> set ms.
           c < length (socks s) \<and> peerId (socks s ! c) = p \<and> currentRoomId (socks s ! c) = rid"
        by auto
      with a show "truthy rid \<and> stringable rid \<and> ms \<noteq> [] \<and> distinct (map fst ms) \<and> (\<forall>(p, c) \<in> set ms.
           c < length (socks s) \<and> peerId (socks s ! c) = p \<and> currentRoomId (socks s ! c) = rid)"
        by blast
    qed
  next
    assume r: "\<forall>(rid, members) \<in> set (rooms s).
        truthy rid \<and> stringable rid \<and> members \<noteq> [] \<and> distinct (map fst members) \<and>
        (\<forall>(p, c) \<in> set members.
           c < length (socks s) \<and> peerId (socks s ! c) = p \<and> currentRoomId (socks s ! c) = rid)"
    show "rooms_ok s"
      unfolding rooms_ok_def
    proof (intro allI impI)
      fix rid ms assume "map_of (rooms s) rid = Some ms"
      then have "(rid, ms) \<in> set (rooms s)" by (rule map_of_SomeD)
      with r have a: "truthy rid" "ms \<noteq> []" "distinct (map fst ms)" "stringable rid"
        and b: "\<forall>(p, c) \<in> set ms.
           c < length (socks s) \<and> peerId (socks s ! c) = p \<and> currentRoomId (socks s ! c) = rid"
        by blast+
      from b have "\<forall>p c. map_of ms p = Some c \<longrightarrow>
           c < length (socks s) \<and> peerId (socks s ! c) = p \<and> currentRoomId (socks s ! c) = rid"
        by (auto dest: map_of_SomeD)
      with a show "truthy rid \<and> stringable rid \<and> ms \<noteq> [] \<and> distinct (map fst ms) \<and>
        (\<forall>p c. map_of ms p = Some c \<longrightarrow>
           c < length (socks s) \<and> peerId (socks s ! c) = p \<and> currentRoomId (socks s ! c) = rid)"
        by blast
    qed
  qed
  show ?thesis
    unfolding consistent_def so using ro by blast
qed

lemma peerIds_kept:
  "map peerId (xs[i := (xs ! i)\<lparr>currentRoomId := v\<rparr>]) = map peerId xs"
proof (cases "i < length xs")
  case True
  then show ?thesis by (simp add: map_update list_update_same_conv)
next
  case False
  then have "xs[i := (xs ! i)\<lparr>currentRoomId := v\<rparr>] = xs" by (intro list_update_beyond) simp
  then show ?thesis by simp
qed

lemma leaveRoom_noop:
  "currentRoomId (socks s ! ws) = JNull \<Longrightarrow> leaveRoom ws s = (s, [])"
  by (simp add: leaveRoom_def)

lemma consistent_room:
  assumes "consistent s" "ws < length (socks s)" "currentRoomId (socks s ! ws) \<noteq> JNull"
  obtains ms where "map_of (rooms s) (currentRoomId (socks s ! ws)) = Some ms"
    "map_of ms (peerId (socks s ! ws)) = Some ws" "truthy (currentRoomId (socks s ! ws))"
  using assms unfolding consistent_iff socks_ok_def rooms_ok_def by blast

lemma leaveRoom_state:
  assumes "truthy (currentRoomId (socks s ! ws))"
    "map_of (rooms s) (currentRoomId (socks s ! ws)) = Some ms"
  shows "fst (leaveRoom ws s) =
     \<lparr>rooms = (if AList.delete (peerId (socks s ! ws)) ms = []
               then AList.delete (currentRoomId (socks s ! ws)) (rooms s)
               else AList.update (currentRoomId (socks s ! ws))
                      (AList.delete (peerId (socks s ! ws)) ms) (rooms s)),
      socks = (socks s)[ws := (socks s ! ws)\<lparr>currentRoomId := JNull\<rparr>]\<rparr>"
  using assms by (simp add: leaveRoom_def Let_def)

lemma consistent_leaveRoom:
  assumes c: "consistent s" and w: "ws < length (socks s)"
  shows "consistent (fst (leaveRoom ws s))"
proof (cases "currentRoomId (socks s ! ws) = JNull")
  case True
  with c show ?thesis by (simp add: leaveRoom_noop)
next
  case False
  define cur where "cur = currentRoomId (socks s ! ws)"
  define pid where "pid = peerId (socks s ! ws)"
  from consistent_room[OF c w False] obtain ms where
    ms: "map_of (rooms s) cur = Some ms" and me: "map_of ms pid = Some ws" and t: "truthy cur"
    unfolding cur_def pid_def by blast
  define rc where "rc = AList.delete pid ms"
  define s' where "s' = fst (leaveRoom ws s)"
  have st: "s' = \<lparr>rooms = (if rc = [] then AList.delete cur (rooms s) else AList.update cur rc (rooms s)),
      socks = (socks s)[ws := (socks s ! ws)\<lparr>currentRoomId := JNull\<rparr>]\<rparr>"
    unfolding s'_def rc_def cur_def pid_def
    using leaveRoom_state[of s ws ms] t ms unfolding cur_def by simp
  from c have d1: "distinct (map fst (rooms s))" and d2: "distinct (map peerId (socks s))"
    and ro: "rooms_ok s" and so: "socks_ok s" unfolding consistent_iff by simp_all
  have mr: "map_of (rooms s') = (map_of (rooms s))(cur := (if rc = [] then None else Some rc))"
    unfolding st by (auto simp: delete_conv' update_conv')
  have mc: "map_of rc = (map_of ms)(pid := None)"
    unfolding rc_def by (simp add: delete_conv')
  have sk: "\<And>c. c < length (socks s) \<Longrightarrow> c \<noteq> ws \<Longrightarrow> socks s' ! c = socks s ! c"
    unfolding st by simp
  have len: "length (socks s') = length (socks s)" unfolding st by simp
  have sw: "currentRoomId (socks s' ! ws) = JNull" "peerId (socks s' ! ws) = pid"
    unfolding st pid_def using w by simp_all
  have "distinct (map fst (rooms s'))"
    unfolding st using d1 by (simp add: distinct_delete distinct_update)
  moreover have "distinct (map peerId (socks s'))"
    unfolding st using d2 by (simp add: peerIds_kept)
  moreover have "rooms_ok s'"
    unfolding rooms_ok_def
  proof (intro allI impI)
    fix rid m assume a: "map_of (rooms s') rid = Some m"
    show "truthy rid \<and> stringable rid \<and> m \<noteq> [] \<and> distinct (map fst m) \<and>
      (\<forall>p c. map_of m p = Some c \<longrightarrow>
         c < length (socks s') \<and> peerId (socks s' ! c) = p \<and> currentRoomId (socks s' ! c) = rid)"
    proof (cases "rid = cur")
      case True
      with a mr have m: "m = rc" "rc \<noteq> []" by (auto split: if_splits)
      from ro ms have dm: "distinct (map fst ms)" and sc: "stringable cur" and
        pm: "\<And>p c. map_of ms p = Some c \<Longrightarrow>
           c < length (socks s) \<and> peerId (socks s ! c) = p \<and> currentRoomId (socks s ! c) = cur"
        unfolding rooms_ok_def by blast+
      have "\<forall>p c. map_of rc p = Some c \<longrightarrow>
         c < length (socks s') \<and> peerId (socks s' ! c) = p \<and> currentRoomId (socks s' ! c) = cur"
      proof (intro allI impI)
        fix p c assume "map_of rc p = Some c"
        with mc have pp: "p \<noteq> pid" "map_of ms p = Some c" by (auto split: if_splits)
        from pm[OF pp(2)] have x: "c < length (socks s)" "peerId (socks s ! c) = p"
          "currentRoomId (socks s ! c) = cur" by simp_all
        with pp(1) have "c \<noteq> ws" unfolding pid_def by auto
        with x sk len show "c < length (socks s') \<and> peerId (socks s' ! c) = p \<and>
          currentRoomId (socks s' ! c) = cur" by simp
      qed
      with m t sc dm True show ?thesis unfolding rc_def by (simp add: distinct_delete)
    next
      case False
      with a mr have m: "map_of (rooms s) rid = Some m" by (auto split: if_splits)
      with ro have r: "truthy rid" "m \<noteq> []" "distinct (map fst m)" "stringable rid" and
        pm: "\<And>p c. map_of m p = Some c \<Longrightarrow>
           c < length (socks s) \<and> peerId (socks s ! c) = p \<and> currentRoomId (socks s ! c) = rid"
        unfolding rooms_ok_def by blast+
      have "\<forall>p c. map_of m p = Some c \<longrightarrow>
         c < length (socks s') \<and> peerId (socks s' ! c) = p \<and> currentRoomId (socks s' ! c) = rid"
      proof (intro allI impI)
        fix p c assume "map_of m p = Some c"
        from pm[OF this] have x: "c < length (socks s)" "peerId (socks s ! c) = p"
          "currentRoomId (socks s ! c) = rid" by simp_all
        with False have "c \<noteq> ws" unfolding cur_def by auto
        with x sk len show "c < length (socks s') \<and> peerId (socks s' ! c) = p \<and>
          currentRoomId (socks s' ! c) = rid" by simp
      qed
      with r show ?thesis by simp
    qed
  qed
  moreover have "socks_ok s'"
    unfolding socks_ok_def
  proof (intro allI impI)
    fix v assume v: "v < length (socks s')" and n: "currentRoomId (socks s' ! v) \<noteq> JNull"
    from n sw have vw: "v \<noteq> ws" by auto
    with v len sk have e: "socks s' ! v = socks s ! v" by simp
    with so v len n obtain m where m: "map_of (rooms s) (currentRoomId (socks s ! v)) = Some m"
      "map_of m (peerId (socks s ! v)) = Some v" unfolding socks_ok_def by auto
    show "\<exists>m. map_of (rooms s') (currentRoomId (socks s' ! v)) = Some m \<and>
              map_of m (peerId (socks s' ! v)) = Some v"
    proof (cases "currentRoomId (socks s ! v) = cur")
      case True
      with m ms have mm: "m = ms" by simp
      from d2 v len w vw have "peerId (socks s ! v) \<noteq> pid"
        unfolding pid_def by (auto simp: distinct_conv_nth)
      with m mm mc have "map_of rc (peerId (socks s ! v)) = Some v" by simp
      moreover from this have "rc \<noteq> []" by auto
      ultimately show ?thesis using mr True e by simp
    next
      case False
      with m mr e show ?thesis by simp
    qed
  qed
  ultimately show ?thesis unfolding s'_def[symmetric] consistent_iff by simp
qed

lemma leaveRoom_cleared:
  assumes "consistent s" "ws < length (socks s)"
  shows "currentRoomId (socks (fst (leaveRoom ws s)) ! ws) = JNull"
    and "length (socks (fst (leaveRoom ws s))) = length (socks s)"
    and "peerId (socks (fst (leaveRoom ws s)) ! ws) = peerId (socks s ! ws)"
proof -
  show "currentRoomId (socks (fst (leaveRoom ws s)) ! ws) = JNull"
  proof (cases "currentRoomId (socks s ! ws) = JNull")
    case True then show ?thesis by (simp add: leaveRoom_noop)
  next
    case False
    from consistent_room[OF assms False] obtain ms where
      "map_of (rooms s) (currentRoomId (socks s ! ws)) = Some ms"
      "truthy (currentRoomId (socks s ! ws))" by blast
    then show ?thesis using assms(2) by (simp add: leaveRoom_state)
  qed
  show "length (socks (fst (leaveRoom ws s))) = length (socks s)"
    by (simp add: leaveRoom_def Let_def split: option.splits)
  show "peerId (socks (fst (leaveRoom ws s)) ! ws) = peerId (socks s ! ws)"
    using assms(2) by (simp add: leaveRoom_def Let_def split: option.splits)
qed

lemma update_not_empty: "AList.update k v al \<noteq> []"
  by (cases al) auto

lemma enter_room_state:
  "fst (enter_room ws rid s) =
     \<lparr>rooms = AList.update rid
        (AList.update (peerId (socks s ! ws)) ws
           (case map_of (rooms s) rid of None \<Rightarrow> [] | Some m \<Rightarrow> m))
        (rooms s),
      socks = (socks s)[ws := (socks s ! ws)\<lparr>currentRoomId := rid\<rparr>]\<rparr>"
  by (cases "map_of (rooms s) rid") (simp_all add: enter_room_def Let_def update_conv')

lemma consistent_enter_room:
  assumes c: "consistent s" and w: "ws < length (socks s)" and t: "truthy rid"
    and sr: "stringable rid"
    and cr: "currentRoomId (socks s ! ws) = JNull \<or> currentRoomId (socks s ! ws) = rid"
  shows "consistent (fst (enter_room ws rid s))"
proof -
  define pid where "pid = peerId (socks s ! ws)"
  define ms0 where "ms0 = (case map_of (rooms s) rid of None \<Rightarrow> [] | Some m \<Rightarrow> m)"
  define s' where "s' = fst (enter_room ws rid s)"
  have st: "s' = \<lparr>rooms = AList.update rid (AList.update pid ws ms0) (rooms s),
      socks = (socks s)[ws := (socks s ! ws)\<lparr>currentRoomId := rid\<rparr>]\<rparr>"
    unfolding s'_def pid_def ms0_def by (rule enter_room_state)
  from c have d1: "distinct (map fst (rooms s))" and d2: "distinct (map peerId (socks s))"
    and ro: "rooms_ok s" and so: "socks_ok s" unfolding consistent_iff by simp_all
  have mr: "map_of (rooms s') = (map_of (rooms s))(rid \<mapsto> AList.update pid ws ms0)"
    unfolding st by (simp add: update_conv')
  have mc: "map_of (AList.update pid ws ms0) = (map_of ms0)(pid \<mapsto> ws)"
    by (simp add: update_conv')
  have sk: "\<And>c. c < length (socks s) \<Longrightarrow> c \<noteq> ws \<Longrightarrow> socks s' ! c = socks s ! c"
    unfolding st by simp
  have len: "length (socks s') = length (socks s)" unfolding st by simp
  have sw: "currentRoomId (socks s' ! ws) = rid" "peerId (socks s' ! ws) = pid"
    unfolding st pid_def using w by simp_all
  have m0: "map_of (rooms s) rid = Some ms0 \<and>
      c < length (socks s) \<and> peerId (socks s ! c) = p \<and> currentRoomId (socks s ! c) = rid"
    if "map_of ms0 p = Some c" for p c
  proof (cases "map_of (rooms s) rid")
    case None
    with that show ?thesis unfolding ms0_def by simp
  next
    case (Some m)
    then have "ms0 = m" unfolding ms0_def by simp
    with Some that ro show ?thesis unfolding rooms_ok_def by blast
  qed
  have dm0: "distinct (map fst ms0)"
  proof (cases "map_of (rooms s) rid")
    case None
    then show ?thesis unfolding ms0_def by simp
  next
    case (Some m)
    then have "ms0 = m" unfolding ms0_def by simp
    with Some ro show ?thesis unfolding rooms_ok_def by blast
  qed
  have "distinct (map fst (rooms s'))"
    unfolding st using d1 by (simp add: distinct_update)
  moreover have "distinct (map peerId (socks s'))"
    unfolding st using d2 by (simp add: peerIds_kept)
  moreover have "rooms_ok s'"
    unfolding rooms_ok_def
  proof (intro allI impI)
    fix r m assume a: "map_of (rooms s') r = Some m"
    show "truthy r \<and> stringable r \<and> m \<noteq> [] \<and> distinct (map fst m) \<and>
      (\<forall>p c. map_of m p = Some c \<longrightarrow>
         c < length (socks s') \<and> peerId (socks s' ! c) = p \<and> currentRoomId (socks s' ! c) = r)"
    proof (cases "r = rid")
      case True
      with a mr have m: "m = AList.update pid ws ms0" by simp
      have "\<forall>p c. map_of m p = Some c \<longrightarrow>
         c < length (socks s') \<and> peerId (socks s' ! c) = p \<and> currentRoomId (socks s' ! c) = rid"
      proof (intro allI impI)
        fix p c assume pc: "map_of m p = Some c"
        show "c < length (socks s') \<and> peerId (socks s' ! c) = p \<and> currentRoomId (socks s' ! c) = rid"
        proof (cases "p = pid")
          case True
          with pc m mc have "c = ws" by simp
          with True sw w len show ?thesis by simp
        next
          case False
          with pc m mc have "map_of ms0 p = Some c" by simp
          from m0[OF this] have x: "c < length (socks s)" "peerId (socks s ! c) = p"
            "currentRoomId (socks s ! c) = rid" by simp_all
          with False have "c \<noteq> ws" unfolding pid_def by auto
          with x sk len show ?thesis by simp
        qed
      qed
      with m t sr dm0 True show ?thesis by (simp add: distinct_update update_not_empty)
    next
      case False
      with a mr have m: "map_of (rooms s) r = Some m" by (auto split: if_splits)
      with ro have rr: "truthy r" "m \<noteq> []" "distinct (map fst m)" "stringable r" and
        pm: "\<And>p c. map_of m p = Some c \<Longrightarrow>
           c < length (socks s) \<and> peerId (socks s ! c) = p \<and> currentRoomId (socks s ! c) = r"
        unfolding rooms_ok_def by blast+
      have "\<forall>p c. map_of m p = Some c \<longrightarrow>
         c < length (socks s') \<and> peerId (socks s' ! c) = p \<and> currentRoomId (socks s' ! c) = r"
      proof (intro allI impI)
        fix p c assume "map_of m p = Some c"
        from pm[OF this] have x: "c < length (socks s)" "peerId (socks s ! c) = p"
          "currentRoomId (socks s ! c) = r" by simp_all
        with False cr rr(1) have "c \<noteq> ws" by auto
        with x sk len show "c < length (socks s') \<and> peerId (socks s' ! c) = p \<and>
          currentRoomId (socks s' ! c) = r" by simp
      qed
      with rr show ?thesis by simp
    qed
  qed
  moreover have "socks_ok s'"
    unfolding socks_ok_def
  proof (intro allI impI)
    fix v assume v: "v < length (socks s')" and n: "currentRoomId (socks s' ! v) \<noteq> JNull"
    show "\<exists>m. map_of (rooms s') (currentRoomId (socks s' ! v)) = Some m \<and>
              map_of m (peerId (socks s' ! v)) = Some v"
    proof (cases "v = ws")
      case True
      with sw mr mc show ?thesis by simp
    next
      case False
      with v len sk have e: "socks s' ! v = socks s ! v" by simp
      with so v len n obtain m where m: "map_of (rooms s) (currentRoomId (socks s ! v)) = Some m"
        "map_of m (peerId (socks s ! v)) = Some v" unfolding socks_ok_def by auto
      show ?thesis
      proof (cases "currentRoomId (socks s ! v) = rid")
        case True
        with m have mm: "m = ms0" unfolding ms0_def by simp
        from d2 v len w False have "peerId (socks s ! v) \<noteq> pid"
          unfolding pid_def by (auto simp: distinct_conv_nth)
        with m mm mc have "map_of (AList.update pid ws ms0) (peerId (socks s ! v)) = Some v" by simp
        with mr True e show ?thesis by simp
      next
        case False
        with m mr e show ?thesis by simp
      qed
    qed
  qed
  ultimately show ?thesis unfolding s'_def[symmetric] consistent_iff by simp
qed

lemma join_room_unfold:
  "truthy rid \<Longrightarrow>
   join_room ws rid s =
     (let s1 = (if truthy (currentRoomId (socks s ! ws)) \<and> currentRoomId (socks s ! ws) \<noteq> rid
                then fst (leaveRoom ws s) else s);
          left = (if truthy (currentRoomId (socks s ! ws)) \<and> currentRoomId (socks s ! ws) \<noteq> rid
                then snd (leaveRoom ws s) else [])
      in (fst (enter_room ws rid s1), left @ snd (enter_room ws rid s1)))"
  by (simp add: join_room_def Let_def split: prod.splits)

lemma consistent_join_room:
  assumes c: "consistent s" and w: "ws < length (socks s)" and sr: "stringable rid"
  shows "consistent (fst (join_room ws rid s))"
proof (cases "truthy rid")
  case False
  with c show ?thesis by (simp add: join_room_def)
next
  case True
  define s1 where "s1 = (if truthy (currentRoomId (socks s ! ws)) \<and> currentRoomId (socks s ! ws) \<noteq> rid
                then fst (leaveRoom ws s) else s)"
  have c1: "consistent s1" unfolding s1_def using c w by (simp add: consistent_leaveRoom)
  have w1: "ws < length (socks s1)" unfolding s1_def using c w by (simp add: leaveRoom_cleared)
  have "currentRoomId (socks s1 ! ws) = JNull \<or> currentRoomId (socks s1 ! ws) = rid"
  proof (cases "truthy (currentRoomId (socks s ! ws)) \<and> currentRoomId (socks s ! ws) \<noteq> rid")
    case True
    then show ?thesis unfolding s1_def using c w by (simp add: leaveRoom_cleared)
  next
    case False
    have "currentRoomId (socks s ! ws) \<noteq> JNull \<Longrightarrow> truthy (currentRoomId (socks s ! ws))"
      using consistent_room[OF c w] by blast
    with False show ?thesis unfolding s1_def by auto
  qed
  from consistent_enter_room[OF c1 w1 True sr this]
  show ?thesis using True unfolding s1_def by (simp add: join_room_unfold Let_def)
qed

lemma consistent_on_connection:
  assumes c: "consistent s" and f: "pid \<notin> set (map peerId (socks s))"
  shows "consistent (fst (on_connection pid s))"
proof -
  from c have d1: "distinct (map fst (rooms s))" and d2: "distinct (map peerId (socks s))"
    and ro: "rooms_ok s" and so: "socks_ok s" unfolding consistent_iff by simp_all
  have "rooms_ok (fst (on_connection pid s))"
    unfolding rooms_ok_def
  proof (intro allI impI)
    fix rid ms assume "map_of (rooms (fst (on_connection pid s))) rid = Some ms"
    then have m: "map_of (rooms s) rid = Some ms" by (simp add: on_connection_def)
    with ro have a: "truthy rid" "ms \<noteq> []" "distinct (map fst ms)" "stringable rid"
      and b: "\<And>p c. map_of ms p = Some c \<Longrightarrow>
           c < length (socks s) \<and> peerId (socks s ! c) = p \<and> currentRoomId (socks s ! c) = rid"
      unfolding rooms_ok_def by blast+
    have "\<forall>p c. map_of ms p = Some c \<longrightarrow>
        c < length (socks (fst (on_connection pid s))) \<and>
        peerId (socks (fst (on_connection pid s)) ! c) = p \<and>
        currentRoomId (socks (fst (on_connection pid s)) ! c) = rid"
      using b by (simp add: on_connection_def nth_append less_Suc_eq)
    with a show "truthy rid \<and> stringable rid \<and> ms \<noteq> [] \<and> distinct (map fst ms) \<and>
      (\<forall>p c. map_of ms p = Some c \<longrightarrow>
        c < length (socks (fst (on_connection pid s))) \<and>
        peerId (socks (fst (on_connection pid s)) ! c) = p \<and>
        currentRoomId (socks (fst (on_connection pid s)) ! c) = rid)" by blast
  qed
  moreover have "socks_ok (fst (on_connection pid s))"
    using so unfolding socks_ok_def on_connection_def
    by (auto simp: nth_append less_Suc_eq)
  ultimately show ?thesis using d1 d2 f unfolding consistent_iff
    by (simp add: on_connection_def)
qed

lemma consistent_transport:
  assumes c: "consistent s"
  shows "consistent (s\<lparr>socks := (socks s)[ws := (socks s ! ws)\<lparr>readyState := r\<rparr>]\<rparr>)"
proof -
  have p: "map peerId ((socks s)[ws := (socks s ! ws)\<lparr>readyState := r\<rparr>]) = map peerId (socks s)"
  proof (cases "ws < length (socks s)")
    case True
    then show ?thesis by (simp add: map_update list_update_same_conv)
  next
    case False
    then have "(socks s)[ws := (socks s ! ws)\<lparr>readyState := r\<rparr>] = socks s"
      by (intro list_update_beyond) simp
    then show ?thesis by simp
  qed
  have n: "\<And>c. c < length (socks s) \<Longrightarrow>
     peerId ((socks s)[ws := (socks s ! ws)\<lparr>readyState := r\<rparr>] ! c) = peerId (socks s ! c) \<and>
     currentRoomId ((socks s)[ws := (socks s ! ws)\<lparr>readyState := r\<rparr>] ! c) = currentRoomId (socks s ! c)"
    by (cases "ws < length (socks s)") (auto simp: nth_list_update not_less)
  from c have ro: "rooms_ok s" and so: "socks_ok s" unfolding consistent_iff by simp_all
  have "rooms_ok (s\<lparr>socks := (socks s)[ws := (socks s ! ws)\<lparr>readyState := r\<rparr>]\<rparr>)"
    using ro n unfolding rooms_ok_def by simp
  moreover have "socks_ok (s\<lparr>socks := (socks s)[ws := (socks s ! ws)\<lparr>readyState := r\<rparr>]\<rparr>)"
    using so n unfolding socks_ok_def by simp
  ultimately show ?thesis
    using c p unfolding consistent_iff by simp
qed

lemma signal_state: "signal ws data s = Inr (s', out) \<Longrightarrow> s' = s"
  by (auto simp: signal_def target_unavailable_def Let_def split: option.splits if_splits)

lemma consistent_dispatch:
  assumes "consistent s" "admissible e s" "dispatch e s = Inr (s', out)"
  shows "consistent s'"
proof (cases e)
  case (Connection pid)
  with assms consistent_on_connection[of s pid] show ?thesis by auto
next
  case (Message ws parsed)
  with assms have w: "ws < length (socks s)" by simp
  from assms(3) Message have "s' = s \<or>
      (stringable (get_field (the parsed) ''roomId'') \<and>
       s' = fst (join_room ws (get_field (the parsed) ''roomId'') s))"
    using signal_state[of ws "the parsed" s s' out]
    by (auto simp: on_message_def join_room_def Let_def split: option.splits if_splits)
  with assms(1) w show ?thesis using consistent_join_room by auto
next
  case (Close ws)
  with assms consistent_leaveRoom[of s ws] show ?thesis by (auto simp: on_close_def)
next
  case (Failure ws)
  with assms consistent_leaveRoom[of s ws] show ?thesis by (auto simp: on_error_def)
next
  case (Transport ws r)
  with assms consistent_transport[of s ws r] show ?thesis by auto
qed

lemma consistent_boot: "consistent boot"
  by (simp add: consistent_def boot_def)

lemma consistent_run:
  "consistent s \<Longrightarrow> run s es = Some s' \<Longrightarrow> consistent s'"
proof (induction es arbitrary: s)
  case Nil
  then show ?case by simp
next
  case (Cons e es)
  from Cons.prems(2) obtain s1 out where a: "admissible e s" and d: "dispatch e s = Inr (s1, out)"
    and r: "run s1 es = Some s'"
    by (auto split: if_splits sum.splits)
  from consistent_dispatch[OF Cons.prems(1) a d] have "consistent s1" .
  from Cons.IH[OF this r] show ?case .
qed

lemma peer_left_notes_recipients:
  "(c, m) \<in> set (peer_left_notes hp rid pid rc) \<longleftrightarrow>
     m = Peer_left rid pid \<and> readyState (hp ! c) = OPEN \<and> (\<exists>p. (p, c) \<in> set rc)"
  by (auto simp: peer_left_notes_def)

lemma peer_left_notes_none:
  "c \<notin> snd ` set rc \<Longrightarrow> filter (\<lambda>x. fst x = c) (peer_left_notes hp rid pid rc) = []"
  by (force simp: peer_left_notes_def filter_empty_conv)

lemma peer_left_notes_Cons:
  "peer_left_notes hp rid pid ((p, c) # rc) =
     (if readyState (hp ! c) = OPEN then [(c, Peer_left rid pid)] else [])
       @ peer_left_notes hp rid pid rc"
  by (simp add: peer_left_notes_def)

lemma peer_left_notes_once:
  "distinct (map snd rc) \<Longrightarrow> (p, c) \<in> set rc \<Longrightarrow> readyState (hp ! c) = OPEN \<Longrightarrow>
   length (filter (\<lambda>x. fst x = c) (peer_left_notes hp rid pid rc)) = 1"
proof (induction rc)
  case Nil
  then show ?case by simp
next
  case (Cons a rc)
  obtain p' c' where a: "a = (p', c')" by (cases a)
  show ?case
  proof (cases "c' = c")
    case True
    with Cons.prems(1) a have "c \<notin> snd ` set rc" by simp
    from peer_left_notes_none[OF this] True a Cons.prems(3) show ?thesis
      by (simp add: peer_left_notes_Cons)
  next
    case False
    with Cons.prems a have "distinct (map snd rc)" "(p, c) \<in> set rc" by auto
    from Cons.IH[OF this Cons.prems(3)] False a show ?thesis
      by (simp add: peer_left_notes_Cons)
  qed
qed

lemma members_distinct_clients:
  assumes "rooms_ok s" "map_of (rooms s) rid = Some ms"
  shows "distinct (map snd ms)"
proof -
  from assms have d: "distinct (map fst ms)" and
    pm: "\<And>p c. map_of ms p = Some c \<Longrightarrow> peerId (socks s ! c) = p"
    unfolding rooms_ok_def by blast+
  have "inj_on snd (set ms)"
  proof (rule inj_onI)
    fix x y assume x: "x \<in> set ms" and y: "y \<in> set ms" and e: "snd x = snd y"
    from d x have "map_of ms (fst x) = Some (snd x)" by simp
    from pm[OF this] have 1: "peerId (socks s ! snd x) = fst x" .
    from d y have "map_of ms (fst y) = Some (snd y)" by simp
    from pm[OF this] have 2: "peerId (socks s ! snd y) = fst y" .
    from 1 2 e show "x = y" by (simp add: prod_eq_iff)
  qed
  moreover from d have "distinct ms" by (simp add: distinct_map)
  ultimately show ?thesis by (simp add: distinct_map)
qed

lemma leaveRoom_result:
  assumes "truthy (currentRoomId (socks s ! ws))"
    "map_of (rooms s) (currentRoomId (socks s ! ws)) = Some ms"
  shows "snd (leaveRoom ws s) =
     (if AList.delete (peerId (socks s ! ws)) ms = [] then []
      else peer_left_notes (socks s) (currentRoomId (socks s ! ws)) (peerId (socks s ! ws))
             (AList.delete (peerId (socks s ! ws)) ms))"
  using assms by (simp add: leaveRoom_def Let_def)

lemma leaveRoom_report:
  assumes c: "consistent s" and w: "ws < length (socks s)"
    and ms: "map_of (rooms s) (currentRoomId (socks s ! ws)) = Some ms"
    and l: "leaveRoom ws s = (s', out)"
  shows "(\<forall>c m. (c, m) \<in> set out \<longrightarrow>
            m = Peer_left (currentRoomId (socks s ! ws)) (peerId (socks s ! ws)) \<and>
            readyState (socks s ! c) = OPEN \<and>
            (\<exists>p. p \<noteq> peerId (socks s ! ws) \<and> map_of ms p = Some c))"
    and "(\<forall>p c. p \<noteq> peerId (socks s ! ws) \<and> map_of ms p = Some c \<and> readyState (socks s ! c) = OPEN
            \<longrightarrow> length (filter (\<lambda>x. fst x = c) out) = 1)"
    and "currentRoomId (socks s' ! ws) = JNull"
    and "map_of (rooms s') (currentRoomId (socks s ! ws))
           = (if AList.delete (peerId (socks s ! ws)) ms = [] then None
              else Some (AList.delete (peerId (socks s ! ws)) ms))"
    and "\<forall>r. r \<noteq> currentRoomId (socks s ! ws) \<longrightarrow> map_of (rooms s') r = map_of (rooms s) r"
proof -
  define cur where "cur = currentRoomId (socks s ! ws)"
  define pid where "pid = peerId (socks s ! ws)"
  define rc where "rc = AList.delete pid ms"
  from c have ro: "rooms_ok s" unfolding consistent_iff by simp
  from ro ms have t: "truthy cur" and dm: "distinct (map fst ms)"
    unfolding rooms_ok_def cur_def by blast+
  have out: "out = (if rc = [] then [] else peer_left_notes (socks s) cur pid rc)"
    using leaveRoom_result[of s ws ms] t ms l unfolding cur_def pid_def rc_def by simp
  have s': "s' = \<lparr>rooms = (if rc = [] then AList.delete cur (rooms s) else AList.update cur rc (rooms s)),
      socks = (socks s)[ws := (socks s ! ws)\<lparr>currentRoomId := JNull\<rparr>]\<rparr>"
    using leaveRoom_state[of s ws ms] t ms l unfolding cur_def pid_def rc_def by simp
  have mc: "map_of rc = (map_of ms)(pid := None)"
    unfolding rc_def by (simp add: delete_conv')
  have drc: "distinct (map fst rc)" unfolding rc_def using dm by (simp add: distinct_delete)
  have in_rc: "(p, c) \<in> set rc \<longleftrightarrow> p \<noteq> pid \<and> map_of ms p = Some c" for p c
  proof -
    from drc have "(p, c) \<in> set rc \<longleftrightarrow> map_of rc p = Some c" by simp
    then show ?thesis unfolding mc by auto
  qed
  have dsn: "distinct (map snd rc)"
    unfolding rc_def AList.delete_eq
    using members_distinct_clients[OF ro ms] by (rule distinct_map_filter)
  show "\<forall>c m. (c, m) \<in> set out \<longrightarrow>
            m = Peer_left (currentRoomId (socks s ! ws)) (peerId (socks s ! ws)) \<and>
            readyState (socks s ! c) = OPEN \<and>
            (\<exists>p. p \<noteq> peerId (socks s ! ws) \<and> map_of ms p = Some c)"
    unfolding out cur_def[symmetric] pid_def[symmetric]
    by (auto simp: peer_left_notes_recipients in_rc)
  show "\<forall>p c. p \<noteq> peerId (socks s ! ws) \<and> map_of ms p = Some c \<and> readyState (socks s ! c) = OPEN
            \<longrightarrow> length (filter (\<lambda>x. fst x = c) out) = 1"
  proof (intro allI impI)
    fix p c assume a: "p \<noteq> peerId (socks s ! ws) \<and> map_of ms p = Some c \<and> readyState (socks s ! c) = OPEN"
    then have i: "(p, c) \<in> set rc" unfolding in_rc pid_def by simp
    then have "rc \<noteq> []" by auto
    with peer_left_notes_once[OF dsn i, of "socks s" cur pid] a
    show "length (filter (\<lambda>x. fst x = c) out) = 1" unfolding out by simp
  qed
  show "currentRoomId (socks s' ! ws) = JNull" unfolding s' using w by simp
  show "map_of (rooms s') (currentRoomId (socks s ! ws))
           = (if AList.delete (peerId (socks s ! ws)) ms = [] then None
              else Some (AList.delete (peerId (socks s ! ws)) ms))"
    unfolding s' cur_def[symmetric] pid_def[symmetric] rc_def[symmetric]
    by (simp add: delete_conv' update_conv')
  show "\<forall>r. r \<noteq> currentRoomId (socks s ! ws) \<longrightarrow> map_of (rooms s') r = map_of (rooms s) r"
    unfolding s' cur_def[symmetric]
    by (simp add: delete_conv' update_conv')
qed

lemma consistent_reached: "run boot es = Some s \<Longrightarrow> consistent s"
  using consistent_run[OF consistent_boot] .

lemma on_message_join:
  "get_field data ''type'' = JStr ''join-room'' \<Longrightarrow>
   on_message ws (Some data) s =
     (if truthy (get_field data ''roomId'') \<and> \<not> stringable (get_field data ''roomId'')
      then Inl TypeError else Inr (join_room ws (get_field data ''roomId'') s))"
  by (auto simp: on_message_def)

lemma stored_room_converts:
  assumes "run boot es = Some s" and "ws < length (socks s)"
  shows "stringable (currentRoomId (socks s ! ws))"
proof (cases "currentRoomId (socks s ! ws) = JNull")
  case True
  then show ?thesis by simp
next
  case False
  from consistent_reached[OF assms(1)] have c: "consistent s" .
  then have ro: "rooms_ok s" unfolding consistent_iff by simp
  from consistent_room[OF c assms(2) False] obtain ms where
    "map_of (rooms s) (currentRoomId (socks s ! ws)) = Some ms" by blast
  with ro show ?thesis unfolding rooms_ok_def by blast
qed

lemma enter_room_other_rooms:
  "r \<noteq> rid \<Longrightarrow> map_of (rooms (fst (enter_room ws rid s))) r = map_of (rooms s) r"
  by (simp add: enter_room_state update_conv')

lemma member_is_current:
  assumes c: "consistent s" and w: "ws < length (socks s)"
    and m: "map_of (rooms s) rid = Some ms" and i: "peerId (socks s ! ws) \<in> fst ` set ms"
  shows "currentRoomId (socks s ! ws) = rid \<and> map_of ms (peerId (socks s ! ws)) = Some ws \<and> rid \<noteq> JNull"
proof -
  from c have d2: "distinct (map peerId (socks s))" and ro: "rooms_ok s"
    unfolding consistent_iff by simp_all
  from i obtain c where "map_of ms (peerId (socks s ! ws)) = Some c"
    by (metis domD dom_map_of_conv_image_fst)
  moreover from ro m this have x: "c < length (socks s)" "peerId (socks s ! c) = peerId (socks s ! ws)"
    "currentRoomId (socks s ! c) = rid" "truthy rid"
    unfolding rooms_ok_def by blast+
  moreover from d2 x(1,2) w have "c = ws" by (auto simp: distinct_conv_nth)
  ultimately show ?thesis by auto
qed

lemma join_completes:
  assumes "get_field data ''type'' = JStr ''join-room''"
    and "on_message ws (Some data) s = Inr (s', out)"
  shows "join_room ws (get_field data ''roomId'') s = (s', out)"
    and "truthy (get_field data ''roomId'') \<Longrightarrow> stringable (get_field data ''roomId'')"
  using assms by (auto simp: on_message_join split: if_splits)

lemma switch_room:
  assumes c: "consistent s" and w: "ws < length (socks s)"
    and ty: "get_field data ''type'' = JStr ''join-room''"
    and t: "truthy (get_field data ''roomId'')"
    and sr: "stringable (get_field data ''roomId'')"
    and n: "currentRoomId (socks s ! ws) \<noteq> JNull"
    and d: "currentRoomId (socks s ! ws) \<noteq> get_field data ''roomId''"
  shows "on_message ws (Some data) s
           = Inr (fst (enter_room ws (get_field data ''roomId'') (fst (leaveRoom ws s))),
                  snd (leaveRoom ws s) @ snd (enter_room ws (get_field data ''roomId'') (fst (leaveRoom ws s))))"
    and "on_message ws (Some data) (fst (leaveRoom ws s))
           = Inr (enter_room ws (get_field data ''roomId'') (fst (leaveRoom ws s)))"
proof -
  from consistent_room[OF c w n] have tc: "truthy (currentRoomId (socks s ! ws))" by blast
  with t sr d show "on_message ws (Some data) s
           = Inr (fst (enter_room ws (get_field data ''roomId'') (fst (leaveRoom ws s))),
                  snd (leaveRoom ws s) @ snd (enter_room ws (get_field data ''roomId'') (fst (leaveRoom ws s))))"
    by (simp add: on_message_join[OF ty] join_room_unfold Let_def)
  from leaveRoom_cleared(1)[OF c w] t sr
  show "on_message ws (Some data) (fst (leaveRoom ws s))
           = Inr (enter_room ws (get_field data ''roomId'') (fst (leaveRoom ws s)))"
    by (simp add: on_message_join[OF ty] join_room_unfold Let_def)
qed

lemma last_member_leaves:
  assumes c: "consistent s" and w: "ws < length (socks s)"
    and m: "map_of (rooms s) rid = Some [(peerId (socks s ! ws), ws)]"
  shows "currentRoomId (socks s ! ws) = rid" and "map_of (rooms (fst (leaveRoom ws s))) rid = None"
proof -
  from member_is_current[OF c w m] show cur: "currentRoomId (socks s ! ws) = rid" by simp
  obtain s' out where l: "leaveRoom ws s = (s', out)" by fastforce
  from leaveRoom_report(4)[OF c w _ l, of "[(peerId (socks s ! ws), ws)]"] m cur l
  show "map_of (rooms (fst (leaveRoom ws s))) rid = None" by simp
qed

subsection \<open>Rooms in the table have members\<close>

text \<open>
  C3: after every sequence of events, a room identifier is a key of the room table if and
  only if the table holds a non-empty member map for it. In particular, when the only
  member of a room closes, fails, or sends \<open>join-room\<close> for a different room, the room is
  no longer a key of the table afterwards.
\<close>

theorem room_listed_iff_nonempty:
  assumes "run boot es = Some s"
  shows "(\<forall>rid. rid \<in> fst ` set (rooms s) \<longleftrightarrow> (\<exists>ms. map_of (rooms s) rid = Some ms \<and> ms \<noteq> [])) \<and>
     (\<forall>ws rid e s' out.
        ws < length (socks s) \<and> map_of (rooms s) rid = Some [(peerId (socks s ! ws), ws)] \<and>
        (e = Close ws \<or> e = Failure ws \<or>
         (\<exists>data. e = Message ws (Some data) \<and> get_field data ''type'' = JStr ''join-room'' \<and>
            truthy (get_field data ''roomId'') \<and> get_field data ''roomId'' \<noteq> rid)) \<and>
        dispatch e s = Inr (s', out)
        \<longrightarrow> rid \<notin> fst ` set (rooms s'))"
proof -
  from consistent_reached[OF assms] have c: "consistent s" .
  then have ro: "rooms_ok s" unfolding consistent_iff by simp
  have 1: "rid \<in> fst ` set (rooms s) \<longleftrightarrow> (\<exists>ms. map_of (rooms s) rid = Some ms \<and> ms \<noteq> [])" for rid
  proof
    assume "rid \<in> fst ` set (rooms s)"
    then obtain ms where "map_of (rooms s) rid = Some ms"
      by (metis domD dom_map_of_conv_image_fst)
    with ro show "\<exists>ms. map_of (rooms s) rid = Some ms \<and> ms \<noteq> []"
      unfolding rooms_ok_def by blast
  next
    assume "\<exists>ms. map_of (rooms s) rid = Some ms \<and> ms \<noteq> []"
    then show "rid \<in> fst ` set (rooms s)"
      by (metis domI dom_map_of_conv_image_fst)
  qed
  have 2: "rid \<notin> fst ` set (rooms s')"
    if w: "ws < length (socks s)" and m: "map_of (rooms s) rid = Some [(peerId (socks s ! ws), ws)]"
      and e: "e = Close ws \<or> e = Failure ws \<or>
         (\<exists>data. e = Message ws (Some data) \<and> get_field data ''type'' = JStr ''join-room'' \<and>
            truthy (get_field data ''roomId'') \<and> get_field data ''roomId'' \<noteq> rid)"
      and d: "dispatch e s = Inr (s', out)" for ws rid e s' out
  proof -
    from last_member_leaves[OF c w m] have cur: "currentRoomId (socks s ! ws) = rid"
      and gone: "map_of (rooms (fst (leaveRoom ws s))) rid = None" by simp_all
    from ro m have "truthy rid" unfolding rooms_ok_def by blast
    with cur have n: "currentRoomId (socks s ! ws) \<noteq> JNull" by auto
    have "map_of (rooms s') rid = None"
    proof -
      consider "e = Close ws" | "e = Failure ws" |
        data where "e = Message ws (Some data)" "get_field data ''type'' = JStr ''join-room''"
          "truthy (get_field data ''roomId'')" "get_field data ''roomId'' \<noteq> rid"
        using e by blast
      then show ?thesis
      proof cases
        case 1
        with d gone show ?thesis by (auto simp: on_close_def)
      next
        case 2
        with d gone show ?thesis by (auto simp: on_error_def)
      next
        case 3
        from d 3(1) have o: "on_message ws (Some data) s = Inr (s', out)" by simp
        from join_completes(2)[OF 3(2) o 3(3)] have sr: "stringable (get_field data ''roomId'')" .
        from switch_room(1)[OF c w 3(2,3) sr n] 3(4) cur o
        have "s' = fst (enter_room ws (get_field data ''roomId'') (fst (leaveRoom ws s)))" by auto
        with gone 3(4) show ?thesis by (simp add: enter_room_other_rooms)
      qed
    qed
    then show ?thesis by (metis domIff dom_map_of_conv_image_fst)
  qed
  from 1 2 show ?thesis by blast
qed

theorem room_listed_iff_nonempty_witness:
  "run boot [Connection ''X'', Message 0 (Some join_r1)] = Some x_in_r1 \<and>
   JStr ''r1'' \<in> fst ` set (rooms x_in_r1) \<and>
   map_of (rooms x_in_r1) (JStr ''r1'') = Some [(peerId (socks x_in_r1 ! 0), 0)] \<and>
   dispatch (Close 0) x_in_r1 = Inr (x_connected, []) \<and>
   JStr ''r1'' \<notin> fst ` set (rooms x_connected)"
proof -
  have a: "0 < length (socks x_in_r1)"
    "map_of (rooms x_in_r1) (JStr ''r1'') = Some [(peerId (socks x_in_r1 ! 0), 0)]"
    by (simp_all add: x_in_r1_def)
  have d: "dispatch (Close 0) x_in_r1 = Inr (x_connected, [])"
    by (simp add: on_close_def leaveRoom_def x_in_r1_def x_connected_def Let_def)
  from room_listed_iff_nonempty[OF x_in_r1_reached] a d
  have "JStr ''r1'' \<notin> fst ` set (rooms x_connected)" by blast
  moreover from room_listed_iff_nonempty[OF x_in_r1_reached] a(2)
  have "JStr ''r1'' \<in> fst ` set (rooms x_in_r1)" by blast
  ultimately show ?thesis using x_in_r1_reached a d by blast
qed

subsection \<open>One room per peer\<close>



text \<open>
  The room switch that does not happen: \<open>X\<close>, in \<open>r1\<close> with \<open>Y\<close>, sends \<open>join-room\<close> with the
  roomId \<open>{"toString":1}\<close>. Line 46 throws before the \<open>switch\<close>, so nobody is removed and
  nothing is sent.
\<close>

lemma join_unconvertible_room_throws:
  "on_message 0 (Some join_odd_room) xy_in_r1 = Inl TypeError"
  by (simp add: on_message_def join_odd_room_def unprintable_def)

subsection \<open>Closing and failing connections\<close>

text \<open>
  C6: in a state reached by any sequence of events, the \<open>close\<close> and \<open>error\<close> handlers do
  the same. When the peer has no current room they change nothing and send nothing. When
  it is in a room, every message sent is a \<open>peer-left\<close> naming that room and the departed
  peerId, sent to the open connection of another member; each other member whose
  connection is open gets exactly one, a member whose connection is not open gets none;
  afterwards the peer's \<open>currentRoomId\<close> is \<open>null\<close> and the room's member map is the old one
  without the peer, or the room is gone when no member is left.
\<close>

theorem departure_notifies_members:
  assumes "run boot es = Some s" and "ws < length (socks s)"
  shows "on_error ws s = on_close ws s \<and>
     (currentRoomId (socks s ! ws) = JNull \<longrightarrow> on_close ws s = (s, [])) \<and>
     (\<forall>ms s' out.
        map_of (rooms s) (currentRoomId (socks s ! ws)) = Some ms \<and> on_close ws s = (s', out)
        \<longrightarrow> (\<forall>c m. (c, m) \<in> set out \<longrightarrow>
               m = Peer_left (currentRoomId (socks s ! ws)) (peerId (socks s ! ws)) \<and>
               readyState (socks s ! c) = OPEN \<and>
               (\<exists>p. p \<noteq> peerId (socks s ! ws) \<and> map_of ms p = Some c)) \<and>
            (\<forall>p c. p \<noteq> peerId (socks s ! ws) \<and> map_of ms p = Some c \<and>
               readyState (socks s ! c) = OPEN
               \<longrightarrow> length (filter (\<lambda>x. fst x = c) out) = 1) \<and>
            currentRoomId (socks s' ! ws) = JNull \<and>
            map_of (rooms s') (currentRoomId (socks s ! ws))
              = (if AList.delete (peerId (socks s ! ws)) ms = [] then None
                 else Some (AList.delete (peerId (socks s ! ws)) ms)))"
proof -
  from consistent_reached[OF assms(1)] have c: "consistent s" .
  have 1: "on_error ws s = on_close ws s" by (simp add: on_error_def on_close_def)
  have 2: "currentRoomId (socks s ! ws) = JNull \<longrightarrow> on_close ws s = (s, [])"
    by (simp add: on_close_def leaveRoom_noop)
  have 3: "(\<forall>c m. (c, m) \<in> set out \<longrightarrow>
               m = Peer_left (currentRoomId (socks s ! ws)) (peerId (socks s ! ws)) \<and>
               readyState (socks s ! c) = OPEN \<and>
               (\<exists>p. p \<noteq> peerId (socks s ! ws) \<and> map_of ms p = Some c)) \<and>
            (\<forall>p c. p \<noteq> peerId (socks s ! ws) \<and> map_of ms p = Some c \<and>
               readyState (socks s ! c) = OPEN
               \<longrightarrow> length (filter (\<lambda>x. fst x = c) out) = 1) \<and>
            currentRoomId (socks s' ! ws) = JNull \<and>
            map_of (rooms s') (currentRoomId (socks s ! ws))
              = (if AList.delete (peerId (socks s ! ws)) ms = [] then None
                 else Some (AList.delete (peerId (socks s ! ws)) ms))"
    if "map_of (rooms s) (currentRoomId (socks s ! ws)) = Some ms \<and> on_close ws s = (s', out)"
    for ms s' out
  proof -
    from that have ms: "map_of (rooms s) (currentRoomId (socks s ! ws)) = Some ms"
      and l: "leaveRoom ws s = (s', out)" by (simp_all add: on_close_def)
    from leaveRoom_report(1-4)[OF c assms(2) ms l] show ?thesis by blast
  qed
  from 1 2 3 show ?thesis by blast
qed

theorem departure_notifies_members_witness:
  "run boot [Connection ''X'', Message 0 (Some join_r1), Connection ''Y'', Message 1 (Some join_r1),
             Connection ''Z'', Message 2 (Some join_r1), Transport 2 CLOSING]
     = Some xyz_in_r1 \<and>
   (1::nat) < length (socks xyz_in_r1) \<and>
   readyState (socks xyz_in_r1 ! 2) = CLOSING \<and>
   on_close 1 xyz_in_r1 = (xz_in_r1, [(0, Peer_left (JStr ''r1'') ''Y'')]) \<and>
   on_error 1 xyz_in_r1 = (xz_in_r1, [(0, Peer_left (JStr ''r1'') ''Y'')]) \<and>
   length (filter (\<lambda>x. fst x = 0) [(0::nat, Peer_left (JStr ''r1'') ''Y'')]) = 1"
proof -
  have l: "(1::nat) < length (socks xyz_in_r1)" by (simp add: xyz_in_r1_def)
  have c: "on_close 1 xyz_in_r1 = (xz_in_r1, [(0, Peer_left (JStr ''r1'') ''Y'')])"
    by (simp add: on_close_def leaveRoom_def peer_left_notes_def xyz_in_r1_def xz_in_r1_def Let_def)
  have ms: "map_of (rooms xyz_in_r1) (currentRoomId (socks xyz_in_r1 ! 1))
      = Some [(''X'', 0), (''Y'', 1), (''Z'', 2)]"
    by (simp add: xyz_in_r1_def)
  have x: "''X'' \<noteq> peerId (socks xyz_in_r1 ! 1) \<and>
      map_of [(''X'', 0::nat), (''Y'', 1), (''Z'', 2)] ''X'' = Some 0 \<and>
      readyState (socks xyz_in_r1 ! 0) = OPEN"
    by (simp add: xyz_in_r1_def)
  have z: "readyState (socks xyz_in_r1 ! 2) = CLOSING" by (simp add: xyz_in_r1_def)
  note d = departure_notifies_members[OF xyz_in_r1_reached l]
  from d have e: "on_error 1 xyz_in_r1 = on_close 1 xyz_in_r1" by blast
  from d ms c have "\<forall>p c. p \<noteq> peerId (socks xyz_in_r1 ! 1) \<and>
      map_of [(''X'', 0::nat), (''Y'', 1), (''Z'', 2)] p = Some c \<and>
      readyState (socks xyz_in_r1 ! c) = OPEN
      \<longrightarrow> length (filter (\<lambda>x. fst x = c) [(0::nat, Peer_left (JStr ''r1'') ''Y'')]) = 1"
    by blast
  with x have "length (filter (\<lambda>x. fst x = 0) [(0::nat, Peer_left (JStr ''r1'') ''Y'')]) = 1"
    by blast
  with c e l z xyz_in_r1_reached show ?thesis by simp
qed

subsection \<open>Joining a room one is not in\<close>

text \<open>
  The list of existing peers is taken before the insertion, and after the peer has left
  its previous room: in a reachable state, a peer that asks for a room other than its
  current one is not in the list it is sent.
\<close>

lemma enter_room_existing_peers:
  assumes "(c, Existing_peers r ps) \<in> set (snd (enter_room ws rid s))"
  shows "c = ws \<and> r = rid \<and> (\<exists>ms. map_of (rooms s) rid = Some ms \<and> ps = map fst ms)"
  using assms
  by (cases "map_of (rooms s) rid")
     (auto simp: enter_room_def Let_def new_peer_notes_def update_conv' split: if_splits)

lemma fresh_join_excludes_joiner:
  assumes r: "run boot es = Some s" and w: "ws < length (socks s)"
    and ty: "get_field data ''type'' = JStr ''join-room''"
    and d: "currentRoomId (socks s ! ws) \<noteq> get_field data ''roomId''"
    and o: "on_message ws (Some data) s = Inr (s', out)"
    and e: "(c, Existing_peers rid ps) \<in> set out"
  shows "c = ws \<and> rid = get_field data ''roomId'' \<and> peerId (socks s ! ws) \<notin> set ps"
proof -
  from consistent_reached[OF r] have c: "consistent s" .
  define B where "B = get_field data ''roomId''"
  from join_completes(1)[OF ty o] have j: "join_room ws B s = (s', out)" unfolding B_def .
  have t: "truthy B"
  proof (rule ccontr)
    assume "\<not> truthy B"
    with j e show False by (auto simp: join_room_def)
  qed
  define s1 where "s1 = (if truthy (currentRoomId (socks s ! ws)) \<and> currentRoomId (socks s ! ws) \<noteq> B
                then fst (leaveRoom ws s) else s)"
  define left where "left = (if truthy (currentRoomId (socks s ! ws)) \<and> currentRoomId (socks s ! ws) \<noteq> B
                then snd (leaveRoom ws s) else [])"
  from j t have out: "out = left @ snd (enter_room ws B s1)"
    unfolding s1_def left_def by (simp add: join_room_unfold Let_def)
  have "(c, Existing_peers rid ps) \<notin> set left"
    unfolding left_def using leaveRoom_sends_peer_left[of c "Existing_peers rid ps" ws s] by auto
  with e out have "(c, Existing_peers rid ps) \<in> set (snd (enter_room ws B s1))" by simp
  from enter_room_existing_peers[OF this] obtain ms where
    x: "c = ws" "rid = B" "map_of (rooms s1) B = Some ms" "ps = map fst ms" by blast
  have c1: "consistent s1" unfolding s1_def using c w by (simp add: consistent_leaveRoom)
  have w1: "ws < length (socks s1)" unfolding s1_def using c w by (simp add: leaveRoom_cleared)
  have p1: "peerId (socks s1 ! ws) = peerId (socks s ! ws)"
    unfolding s1_def using c w by (simp add: leaveRoom_cleared)
  have n1: "currentRoomId (socks s1 ! ws) = JNull"
  proof (cases "truthy (currentRoomId (socks s ! ws)) \<and> currentRoomId (socks s ! ws) \<noteq> B")
    case True
    then show ?thesis unfolding s1_def using c w by (simp add: leaveRoom_cleared)
  next
    case False
    have "currentRoomId (socks s ! ws) \<noteq> JNull \<Longrightarrow> truthy (currentRoomId (socks s ! ws))"
      using consistent_room[OF c w] by blast
    with False d show ?thesis unfolding s1_def B_def by auto
  qed
  have "peerId (socks s ! ws) \<notin> set ps"
  proof
    assume "peerId (socks s ! ws) \<in> set ps"
    with x(4) p1 have "peerId (socks s1 ! ws) \<in> fst ` set ms" by simp
    from member_is_current[OF c1 w1 x(3) this] n1 t show False by auto
  qed
  with x show ?thesis unfolding B_def by simp
qed

end
